theory Spec2Isabelle
  imports Complex_Main "HOL-Library.Word"
begin

section \<open>The vector field animation of field.js\<close>

text \<open>
  A JavaScript Number is an IEEE 754 double: a finite value, \<open>Infinity\<close>, \<open>-Infinity\<close> or
  \<open>NaN\<close>. Every arithmetic operation computes the exact result and rounds it to the
  nearest double, ties to even, with gradual underflow and with overflow to an infinity.
  The sign of zero is not modelled: the one zero stands for \<open>+0\<close>, which is what the
  program computes wherever the sign of a zero could be observed (a difference of two
  equal Numbers, the width of a canvas).

  The canvas is an HTMLCanvasElement: its width and height are unsigned 32-bit integers.
  The drawing context is modelled by the list of the calls and property writes it
  receives, in order.
\<close>

subsection \<open>Doubles and rounding\<close>

datatype num = Fin real | PInf | NInf | NaN

definition pow2 :: "int \<Rightarrow> real" where
  "pow2 k = 2 powr (real_of_int k)"

text \<open>Rounding to the nearest integer, ties to the even one.\<close>

definition rne :: "real \<Rightarrow> int" where
  "rne x =
     (let f = \<lfloor>x\<rfloor>; r = x - real_of_int f
      in if r < 1 / 2 then f else if 1 / 2 < r then f + 1 else if even f then f else f + 1)"

text \<open>
  The binary exponent of a real, not below that of the smallest normal double. The
  doubles of exponent \<open>e\<close> are the multiples of \<open>pow2 (e - 52)\<close>.
\<close>

definition expo :: "real \<Rightarrow> int" where
  "expo x = max (- 1022) \<lfloor>log 2 \<bar>x\<bar>\<rfloor>"

text \<open>Rounding to 53 significant bits, with no bound on the exponent from above.\<close>

definition rnd :: "real \<Rightarrow> real" where
  "rnd x = (if x = 0 then 0 else real_of_int (rne (x / pow2 (expo x - 52))) * pow2 (expo x - 52))"

text \<open>The Number for a real: rounded, and an infinity where the rounded value overflows.\<close>

definition fl :: "real \<Rightarrow> num" where
  "fl x =
     (let r = rnd x
      in if pow2 1024 \<le> r then PInf else if r \<le> - pow2 1024 then NInf else Fin r)"

definition is_neg :: "num \<Rightarrow> bool" where
  "is_neg a = (case a of Fin x \<Rightarrow> x < 0 | NInf \<Rightarrow> True | _ \<Rightarrow> False)"

definition fneg :: "num \<Rightarrow> num" where
  "fneg a = (case a of Fin x \<Rightarrow> Fin (- x) | PInf \<Rightarrow> NInf | NInf \<Rightarrow> PInf | NaN \<Rightarrow> NaN)"

text \<open>The operators \<open>+\<close>, \<open>-\<close>, \<open>*\<close> and \<open>/\<close>.\<close>

definition fadd :: "num \<Rightarrow> num \<Rightarrow> num" where
  "fadd a b =
     (case (a, b) of
        (Fin x, Fin y) \<Rightarrow> fl (x + y)
      | (NaN, _) \<Rightarrow> NaN
      | (_, NaN) \<Rightarrow> NaN
      | (PInf, NInf) \<Rightarrow> NaN
      | (NInf, PInf) \<Rightarrow> NaN
      | (PInf, _) \<Rightarrow> PInf
      | (NInf, _) \<Rightarrow> NInf
      | (Fin x, c) \<Rightarrow> c)"

definition fsub :: "num \<Rightarrow> num \<Rightarrow> num" where
  "fsub a b = fadd a (fneg b)"

definition fmul :: "num \<Rightarrow> num \<Rightarrow> num" where
  "fmul a b =
     (case (a, b) of
        (Fin x, Fin y) \<Rightarrow> fl (x * y)
      | _ \<Rightarrow>
          if a = NaN \<or> b = NaN \<or> a = Fin 0 \<or> b = Fin 0 then NaN
          else if is_neg a = is_neg b then PInf else NInf)"

definition fdiv :: "num \<Rightarrow> num \<Rightarrow> num" where
  "fdiv a b =
     (case (a, b) of
        (Fin x, Fin y) \<Rightarrow>
          if y = 0 then (if x = 0 then NaN else if 0 < x then PInf else NInf)
          else fl (x / y)
      | (NaN, _) \<Rightarrow> NaN
      | (_, NaN) \<Rightarrow> NaN
      | (Fin x, _) \<Rightarrow> Fin 0
      | (_, Fin y) \<Rightarrow> if is_neg a = is_neg b then PInf else NInf
      | _ \<Rightarrow> NaN)"

text \<open>The operator \<open><\<close>; \<open>a > b\<close> is \<open>fless b a\<close>. A comparison with \<open>NaN\<close> is false.\<close>

definition fless :: "num \<Rightarrow> num \<Rightarrow> bool" where
  "fless a b =
     (case (a, b) of
        (Fin x, Fin y) \<Rightarrow> x < y
      | (NaN, _) \<Rightarrow> False
      | (_, NaN) \<Rightarrow> False
      | (PInf, _) \<Rightarrow> False
      | (_, NInf) \<Rightarrow> False
      | _ \<Rightarrow> True)"

text \<open>
  The operator \<open>%\<close>: the exact remainder of the truncating division, with the sign of
  the dividend.
\<close>

definition trunc :: "real \<Rightarrow> int" where
  "trunc q = (if 0 \<le> q then \<lfloor>q\<rfloor> else \<lceil>q\<rceil>)"

definition frem :: "num \<Rightarrow> num \<Rightarrow> num" where
  "frem a b =
     (case (a, b) of
        (Fin x, Fin y) \<Rightarrow> if y = 0 then NaN else Fin (x - y * real_of_int (trunc (x / y)))
      | (Fin x, PInf) \<Rightarrow> Fin x
      | (Fin x, NInf) \<Rightarrow> Fin x
      | _ \<Rightarrow> NaN)"

subsection \<open>The built-in functions\<close>

text \<open>
  \<open>Math.sqrt\<close> is the IEEE square root, correctly rounded, as the engines compute
  it; \<open>Math.floor\<close> is exact.
\<close>

definition Math_sqrt :: "num \<Rightarrow> num" where
  "Math_sqrt a =
     (case a of Fin x \<Rightarrow> if x < 0 then NaN else fl (sqrt x) | PInf \<Rightarrow> PInf | _ \<Rightarrow> NaN)"

definition Math_floor :: "num \<Rightarrow> num" where
  "Math_floor a = (case a of Fin x \<Rightarrow> Fin (real_of_int \<lfloor>x\<rfloor>) | _ \<Rightarrow> a)"

definition Math_PI :: num where
  "Math_PI = fl pi"

text \<open>
  ECMAScript leaves the values of \<open>Math.sin\<close>, \<open>Math.cos\<close> and \<open>Math.atan2\<close> to the
  implementation (``an implementation-approximated value''), except at the arguments
  it lists. The approximations of the engine that runs the program are a parameter of
  the model; the listed arguments are part of the definitions.
\<close>

record engine =
  approx_sin :: "real \<Rightarrow> real"
  approx_cos :: "real \<Rightarrow> real"
  approx_atan2 :: "num \<Rightarrow> num \<Rightarrow> real"

definition Math_sin :: "engine \<Rightarrow> num \<Rightarrow> num" where
  "Math_sin eng a =
     (case a of Fin x \<Rightarrow> if x = 0 then Fin 0 else Fin (approx_sin eng x) | _ \<Rightarrow> NaN)"

definition Math_cos :: "engine \<Rightarrow> num \<Rightarrow> num" where
  "Math_cos eng a =
     (case a of Fin x \<Rightarrow> if x = 0 then Fin 1 else Fin (approx_cos eng x) | _ \<Rightarrow> NaN)"

text \<open>
  \<open>Math.atan2(y, x)\<close> is \<open>+0\<close> for \<open>y = +0\<close> and \<open>x\<close> positive or \<open>+0\<close>, and for \<open>y\<close>
  positive and finite and \<open>x = Infinity\<close>; it is \<open>NaN\<close> if an argument is.
\<close>

definition Math_atan2 :: "engine \<Rightarrow> num \<Rightarrow> num \<Rightarrow> num" where
  "Math_atan2 eng y x =
     (if y = NaN \<or> x = NaN then NaN
      else if y = Fin 0 \<and> \<not> is_neg x then Fin 0
      else if x = PInf \<and> y \<noteq> PInf \<and> y \<noteq> NInf then Fin 0
      else Fin (approx_atan2 eng y x))"

text \<open>\<open>null\<close> is \<open>None\<close>; in arithmetic JavaScript converts \<open>null\<close> to \<open>+0\<close>.\<close>

definition to_number :: "num option \<Rightarrow> num" where
  "to_number n = (case n of None \<Rightarrow> Fin 0 | Some a \<Rightarrow> a)"

text \<open>
  The string of a Number in a template literal, for the Numbers this program prints:
  \<open>NaN\<close>, the infinities and the integers below \<open>10\<^sup>2\<^sup>1\<close> in magnitude, which are
  printed as decimal numerals.
\<close>

definition digit :: "nat \<Rightarrow> char" where
  "digit d = ''0123456789'' ! d"

fun digits :: "nat \<Rightarrow> string" where
  "digits n = (if n < 10 then [digit n] else digits (n div 10) @ [digit (n mod 10)])"

definition number_to_string :: "num \<Rightarrow> string" where
  "number_to_string a =
     (case a of
        NaN \<Rightarrow> ''NaN''
      | PInf \<Rightarrow> ''Infinity''
      | NInf \<Rightarrow> ''-Infinity''
      | Fin x \<Rightarrow> if x < 0 then CHR ''-'' # digits (nat \<lfloor>- x\<rfloor>) else digits (nat \<lfloor>x\<rfloor>))"

subsection \<open>The drawing context and the canvas\<close>

datatype js_error = TypeError

datatype cmd =
    StrokeStyle string
  | FillStyle string
  | LineWidth real
  | BeginPath
  | MoveTo num num
  | LineTo num num
  | Stroke
  | ClosePath
  | Fill
  | ClearRect num num num num

record canvas =
  width :: "32 word"
  height :: "32 word"

text \<open>The Number that reading \<open>canvas.width\<close> or \<open>canvas.height\<close> gives.\<close>

definition num_of_word :: "32 word \<Rightarrow> num" where
  "num_of_word w = Fin (real (unat w))"

text \<open>
  The line segments that \<open>lineTo\<close> adds to a path: \<open>moveTo\<close> starts a subpath at a
  point, \<open>lineTo\<close> adds the segment from the current point to its argument. The first
  argument is the current point, \<open>None\<close> while the path has none (then \<open>lineTo\<close> only
  sets it). A call with an argument that is not finite does nothing.
\<close>

type_synonym point = "real \<times> real"

fun segments_from :: "point option \<Rightarrow> cmd list \<Rightarrow> (point \<times> point) list" where
  "segments_from cur [] = []"
| "segments_from cur (BeginPath # cs) = segments_from None cs"
| "segments_from cur (MoveTo (Fin x) (Fin y) # cs) = segments_from (Some (x, y)) cs"
| "segments_from None (LineTo (Fin x) (Fin y) # cs) = segments_from (Some (x, y)) cs"
| "segments_from (Some p) (LineTo (Fin x) (Fin y) # cs) = (p, (x, y)) # segments_from (Some (x, y)) cs"
| "segments_from cur (c # cs) = segments_from cur cs"

definition segments :: "cmd list \<Rightarrow> (point \<times> point) list" where
  "segments cs = segments_from None cs"

subsection \<open>Vector\<close>

definition dist_js :: "num \<Rightarrow> num \<Rightarrow> num \<Rightarrow> num \<Rightarrow> num" where
  "dist_js x0 y0 x1 y1 =
     Math_sqrt (fadd (fmul (fsub x1 x0) (fsub x1 x0)) (fmul (fsub y1 y0) (fsub y1 y0)))"

definition angleBetween :: "engine \<Rightarrow> num \<Rightarrow> num \<Rightarrow> num \<Rightarrow> num \<Rightarrow> num" where
  "angleBetween eng x0 y0 x1 y1 = Math_atan2 eng (fsub y1 y0) (fsub x1 x0)"

record Vector =
  midX :: num
  midY :: num
  angle :: "num option"
  len :: "num option"

text \<open>The constructor \<open>new Vector(midX, midY)\<close>.\<close>

definition new_Vector :: "num \<Rightarrow> num \<Rightarrow> Vector" where
  "new_Vector mx my = \<lparr>midX = mx, midY = my, angle = None, len = None\<rparr>"

text \<open>
  The loop of \<open>drawArrow\<close>, from counter \<open>i\<close> with the local \<open>angle\<close> at \<open>a\<close>: one
  vertex per round, \<open>moveTo\<close> in round 0 and \<open>lineTo\<close> after it.
\<close>

function arrow_loop :: "engine \<Rightarrow> nat \<Rightarrow> num \<Rightarrow> num \<Rightarrow> num \<Rightarrow> cmd list" where
  "arrow_loop eng i a x y =
     (if i < 3 then
        (let px = fadd (fmul (Fin 5) (Math_cos eng a)) x;
             py = fadd (fmul (Fin 5) (Math_sin eng a)) y;
             a' = fadd a (fdiv (fmul (Fin 2.0) Math_PI) (Fin 3.0))
         in (if i \<noteq> 0 then LineTo px py else MoveTo px py) # arrow_loop eng (i + 1) a' x y)
      else [])"
  by pat_completeness auto
termination
  by (relation "measure (\<lambda>(eng, i, a, x, y). 3 - i)") auto

definition Vector_drawArrow :: "engine \<Rightarrow> Vector \<Rightarrow> num \<Rightarrow> num \<Rightarrow> string \<Rightarrow> cmd list" where
  "Vector_drawArrow eng v x y color =
     [FillStyle color, BeginPath] @ arrow_loop eng 0 (to_number (angle v)) x y @ [ClosePath, Fill]"

text \<open>The two endpoints \<open>(x0, y0)\<close> and \<open>(x1, y1)\<close> that \<open>draw\<close> computes.\<close>

definition draw_endpoints :: "engine \<Rightarrow> Vector \<Rightarrow> (num \<times> num) \<times> (num \<times> num)" where
  "draw_endpoints eng v =
     (let dy = fmul (to_number (len v)) (Math_sin eng (to_number (angle v)));
          dx = fmul (to_number (len v)) (Math_cos eng (to_number (angle v)));
          y0 = fadd (midY v) (fdiv dy (Fin 2));
          x0 = fadd (midX v) (fdiv dx (Fin 2));
          y1 = fsub y0 dy;
          x1 = fsub x0 dx
      in ((x0, y0), (x1, y1)))"

definition Vector_draw :: "engine \<Rightarrow> Vector \<Rightarrow> string \<Rightarrow> cmd list" where
  "Vector_draw eng v color =
     (case draw_endpoints eng v of ((x0, y0), (x1, y1)) \<Rightarrow>
        [StrokeStyle color, LineWidth 3, BeginPath, MoveTo x0 y0, LineTo x1 y1, Stroke]
        @ Vector_drawArrow eng v x0 y0 color)"

text \<open>The three locals of \<open>update\<close> that follow the distance \<open>d\<close>.\<close>

definition update_factor :: "canvas \<Rightarrow> num \<Rightarrow> num" where
  "update_factor cv d = fdiv d (fmul (num_of_word (width cv)) (fl 1.3))"

definition update_hue :: "num \<Rightarrow> num" where
  "update_hue factor = frem (Math_floor (fmul (fmul (Fin 360) factor) (fl 1.1))) (Fin 360)"

definition update_len :: "num \<Rightarrow> num" where
  "update_len factor =
     (if fless (Fin 30) (fmul (Fin 200) factor) then Fin 30 else fmul (Fin 200) factor)"

definition hsl :: "num \<Rightarrow> string" where
  "hsl hue = ''hsl('' @ number_to_string hue @ '', 70%, 35%)''"

text \<open>
  \<open>update\<close>, for a pointer at the finite coordinates \<open>(mouseX, mouseY)\<close>: the vector
  with its new angle and length, and the calls its \<open>draw\<close> makes on the context.
\<close>

definition Vector_update ::
  "engine \<Rightarrow> canvas \<Rightarrow> Vector \<Rightarrow> real \<Rightarrow> real \<Rightarrow> Vector \<times> cmd list" where
  "Vector_update eng cv v mouseX mouseY =
     (let a = angleBetween eng (midX v) (midY v) (Fin mouseX) (Fin mouseY);
          d = dist_js (midX v) (midY v) (Fin mouseX) (Fin mouseY);
          factor = update_factor cv d;
          hue = update_hue factor;
          v' = v\<lparr>angle := Some a, len := Some (update_len factor)\<rparr>
      in (v', Vector_draw eng v' (hsl hue)))"

subsection \<open>VectorField\<close>

text \<open>
  The size and the offsets of a field are finite Numbers. The loop counters of \<open>init\<close>
  are natural numbers: a counter is an integer far below \<open>2\<^sup>5\<^sup>3\<close>, which \<open>++\<close> increments
  exactly.
\<close>

record VectorField =
  size_js :: "real \<times> real"
  offsets :: "real \<times> real"
  grid :: "Vector list list"

text \<open>The constructor \<open>new VectorField(cols, rows, xOffset, yOffset)\<close>.\<close>

definition new_VectorField :: "real \<Rightarrow> real \<Rightarrow> real \<Rightarrow> real \<Rightarrow> VectorField" where
  "new_VectorField cols rows xOffset yOffset =
     \<lparr>size_js = (cols, rows), offsets = (xOffset, yOffset), grid = []\<rparr>"

text \<open>
  The inner loop of \<open>init\<close>, from counter \<open>i\<close>: it returns the row and the local \<open>x\<close>.
\<close>

function init_row ::
  "real \<Rightarrow> num \<Rightarrow> nat \<Rightarrow> num \<Rightarrow> num \<Rightarrow> Vector list \<Rightarrow> Vector list \<times> num" where
  "init_row cols spaceX i x y row =
     (if real i < cols then
        init_row cols spaceX (i + 1) (fadd x spaceX) y (row @ [new_Vector x y])
      else (row, x))"
  by pat_completeness auto
termination
  by (relation "measure (\<lambda>(cols, spaceX, i, x, y, row). nat \<lceil>cols\<rceil> - i)") (auto, linarith)

text \<open>The outer loop of \<open>init\<close>, from counter \<open>j\<close>, appending to the grid \<open>g\<close>.\<close>

function init_rows ::
  "real \<times> real \<Rightarrow> real \<times> real \<Rightarrow> num \<Rightarrow> num \<Rightarrow> nat \<Rightarrow> num \<Rightarrow> num \<Rightarrow>
   Vector list list \<Rightarrow> Vector list list" where
  "init_rows sz offs spaceX spaceY j x y g =
     (if real j < snd sz then
        (case init_row (fst sz) spaceX 0 x y [] of
           (row, x') \<Rightarrow>
             init_rows sz offs spaceX spaceY (j + 1) (Fin (fst offs)) (fadd y spaceY) (g @ [row]))
      else g)"
  by pat_completeness auto
termination
  by (relation "measure (\<lambda>(sz, offs, spaceX, spaceY, j, x, y, g). nat \<lceil>snd sz\<rceil> - j)")
    (auto, linarith)

text \<open>\<open>Math.floor(a / b)\<close>.\<close>

definition floor_div :: "num \<Rightarrow> num \<Rightarrow> num" where
  "floor_div a b = Math_floor (fdiv a b)"

definition VectorField_init :: "VectorField \<Rightarrow> canvas \<Rightarrow> VectorField" where
  "VectorField_init f cv =
     (let spaceX = floor_div (num_of_word (width cv)) (Fin (fst (size_js f)));
          spaceY = floor_div (num_of_word (height cv)) (Fin (snd (size_js f)));
          (x, y) = offsets f
      in f\<lparr>grid := init_rows (size_js f) (offsets f) spaceX spaceY 0 (Fin x) (Fin y) (grid f)\<rparr>)"

text \<open>
  The first loop of \<open>drawGrid\<close>: the calls made, and the exception that ended the loop,
  if any. \<open>row[0]\<close> of an empty row is \<open>undefined\<close>, and reading \<open>midY\<close> of it throws.
\<close>

fun horizontal_lines :: "canvas \<Rightarrow> Vector list list \<Rightarrow> cmd list \<times> js_error option" where
  "horizontal_lines cv [] = ([], None)"
| "horizontal_lines cv ([] # rows) = ([], Some TypeError)"
| "horizontal_lines cv ((v # vs) # rows) =
     (case horizontal_lines cv rows of
        (cs, e) \<Rightarrow> ([MoveTo (Fin 0) (midY v), LineTo (num_of_word (width cv)) (midY v)] @ cs, e))"

text \<open>The second loop of \<open>drawGrid\<close>, over the vectors of \<open>grid[0]\<close>.\<close>

fun vertical_lines :: "canvas \<Rightarrow> Vector list \<Rightarrow> cmd list" where
  "vertical_lines cv [] = []"
| "vertical_lines cv (col # cols) =
     [MoveTo (midX col) (Fin 0), LineTo (midX col) (num_of_word (height cv))]
     @ vertical_lines cv cols"

text \<open>
  \<open>drawGrid\<close>: the calls made on the context and the exception thrown, if any.
  \<open>grid[0]\<close> of an empty grid is \<open>undefined\<close>, and iterating over it throws.
\<close>

definition VectorField_drawGrid :: "VectorField \<Rightarrow> canvas \<Rightarrow> cmd list \<times> js_error option" where
  "VectorField_drawGrid f cv =
     (let pre = [LineWidth 1, StrokeStyle ''#ccc'', BeginPath]
      in case horizontal_lines cv (grid f) of
           (hs, Some e) \<Rightarrow> (pre @ hs, Some e)
         | (hs, None) \<Rightarrow>
             (case grid f of
                [] \<Rightarrow> (pre @ hs, Some TypeError)
              | row0 # _ \<Rightarrow> (pre @ hs @ vertical_lines cv row0 @ [Stroke], None)))"

text \<open>The loops of \<open>update\<close> over a row and over the grid: the updated vectors and the calls.\<close>

fun update_row ::
  "engine \<Rightarrow> canvas \<Rightarrow> Vector list \<Rightarrow> real \<Rightarrow> real \<Rightarrow> Vector list \<times> cmd list" where
  "update_row eng cv [] mouseX mouseY = ([], [])"
| "update_row eng cv (vector # row) mouseX mouseY =
     (case Vector_update eng cv vector mouseX mouseY of
        (v', cs) \<Rightarrow>
          (case update_row eng cv row mouseX mouseY of
             (row', cs') \<Rightarrow> (v' # row', cs @ cs')))"

fun update_rows ::
  "engine \<Rightarrow> canvas \<Rightarrow> Vector list list \<Rightarrow> real \<Rightarrow> real \<Rightarrow> Vector list list \<times> cmd list" where
  "update_rows eng cv [] mouseX mouseY = ([], [])"
| "update_rows eng cv (row # rows) mouseX mouseY =
     (case update_row eng cv row mouseX mouseY of
        (row', cs) \<Rightarrow>
          (case update_rows eng cv rows mouseX mouseY of
             (rows', cs') \<Rightarrow> (row' # rows', cs @ cs')))"

text \<open>
  \<open>VectorField.update\<close>: the field after the call, the calls made on the context and the
  exception thrown, if any. An exception of \<open>drawGrid\<close> ends the call before any vector
  is updated.
\<close>

definition VectorField_update ::
  "engine \<Rightarrow> VectorField \<Rightarrow> canvas \<Rightarrow> real \<Rightarrow> real \<Rightarrow> VectorField \<times> cmd list \<times> js_error option" where
  "VectorField_update eng f cv mouseX mouseY =
     (case VectorField_drawGrid f cv of
        (gs, Some e) \<Rightarrow> (f, gs, Some e)
      | (gs, None) \<Rightarrow>
          (case update_rows eng cv (grid f) mouseX mouseY of
             (g', cs) \<Rightarrow> (f\<lparr>grid := g'\<rparr>, gs @ cs, None)))"

subsection \<open>The program: setup and the mousemove listener\<close>

text \<open>The three globals \<open>canvas\<close>, \<open>ctx\<close> and \<open>field\<close>.\<close>

record world =
  canvas_of :: canvas
  ctx :: "cmd list"
  field :: VectorField

text \<open>
  \<open>setup\<close>, in a window of the given inner width and height, on a page that has a canvas
  element. The context starts with no call made. The quotients \<open>canvas.width / 28\<close> and
  \<open>canvas.height / 28\<close> are below \<open>2\<^sup>2\<^sup>8\<close> and do not overflow: they are the rounded
  real quotients.
\<close>

definition setup_js :: "32 word \<Rightarrow> 32 word \<Rightarrow> world" where
  "setup_js innerWidth innerHeight =
     (let offs = (20, 20);
          cv = \<lparr>width = innerWidth, height = innerHeight\<rparr>;
          cols = rnd (real (unat (width cv)) / 28);
          rows = rnd (real (unat (height cv)) / 28);
          f = new_VectorField cols rows (fst offs) (snd offs)
      in \<lparr>canvas_of = cv, ctx = [], field = VectorField_init f cv\<rparr>)"

text \<open>
  The listener for a mousemove event at client position \<open>(x, y)\<close>, a pair of finite
  Numbers: the globals after it and the exception it ended with, if any.
\<close>

definition mousemove :: "engine \<Rightarrow> world \<Rightarrow> real \<times> real \<Rightarrow> world \<times> js_error option" where
  "mousemove eng s ev =
     (let y = snd ev;
          x = fst ev;
          cv = canvas_of s;
          cleared = ctx s @ [ClearRect (Fin 0) (Fin 0) (num_of_word (width cv)) (num_of_word (height cv))]
      in case VectorField_update eng (field s) cv x y of
           (f', cs, e) \<Rightarrow> (s\<lparr>ctx := cleared @ cs, field := f'\<rparr>, e))"

text \<open>
  A sequence of mousemove events: each listener call runs to its end, and an exception
  it throws is reported by the browser and does not stop the later events.
\<close>

fun run :: "engine \<Rightarrow> world \<Rightarrow> (real \<times> real) list \<Rightarrow> world" where
  "run eng s [] = s"
| "run eng s (ev # evs) = (case mousemove eng s ev of (s', e) \<Rightarrow> run eng s' evs)"

subsection \<open>Auxiliary notions of the statements\<close>

text \<open>A Number that is not negative: a finite value from 0 on, or \<open>Infinity\<close>.\<close>

definition nonneg :: "num \<Rightarrow> bool" where
  "nonneg a = (case a of Fin x \<Rightarrow> 0 \<le> x | PInf \<Rightarrow> True | _ \<Rightarrow> False)"

text \<open>
  The definitions that follow are written from the specification's words, to be
  compared with \<open>VectorField_init\<close>: a coordinate that starts at the offset and
  advances by the spacing, each sum being a sum of Numbers; a row of anchors; and the
  rows. The number of cells along an axis is the number of rounds of the loop
  \<open>for (i = 0; i < cols; i++)\<close>, which is \<open>nat \<lceil>cols\<rceil>\<close>.
\<close>

definition advance :: "num \<Rightarrow> nat \<Rightarrow> num \<Rightarrow> num" where
  "advance s i x = ((\<lambda>u. fadd u s) ^^ i) x"

definition lattice_row :: "real \<Rightarrow> num \<Rightarrow> real \<Rightarrow> num \<Rightarrow> Vector list" where
  "lattice_row cols sx xo y =
     map (\<lambda>i. \<lparr>midX = advance sx i (Fin xo), midY = y, angle = None, len = None\<rparr>) [0..<nat \<lceil>cols\<rceil>]"

definition lattice :: "real \<Rightarrow> real \<Rightarrow> num \<Rightarrow> num \<Rightarrow> real \<Rightarrow> real \<Rightarrow> Vector list list" where
  "lattice cols rows sx sy xo yo =
     map (\<lambda>j. lattice_row cols sx xo (advance sy j (Fin yo))) [0..<nat \<lceil>rows\<rceil>]"

text \<open>The anchors of a grid, row by row.\<close>

definition anchors :: "Vector list list \<Rightarrow> (num \<times> num) list list" where
  "anchors g = map (map (\<lambda>v. (midX v, midY v))) g"

section \<open>Properties of rounding\<close>

lemma pow2_pos [simp]: "0 < pow2 k"
  by (simp add: pow2_def)

lemma pow2_nonneg [simp]: "0 \<le> pow2 k"
  by (simp add: pow2_def)

lemma pow2_neq_0 [simp]: "pow2 k \<noteq> 0"
  by (simp add: pow2_def)

lemma pow2_not_le_0 [simp]: "\<not> pow2 k \<le> 0"
  using pow2_pos [of k] by linarith

lemma pow2_add: "pow2 (j + k) = pow2 j * pow2 k"
  by (simp add: pow2_def powr_add)

lemma pow2_mono: "j \<le> k \<Longrightarrow> pow2 j \<le> pow2 k"
  by (simp add: pow2_def)

lemma pow2_0 [simp]: "pow2 0 = 1"
  by (simp add: pow2_def)

lemma pow2_1: "pow2 1 = 2"
  by (simp add: pow2_def)

lemma pow2_numeral: "pow2 (numeral n) = 2 ^ numeral n"
  by (simp add: pow2_def)

lemma pow2_neg_numeral: "pow2 (- numeral n) = 1 / 2 ^ numeral n"
  by (simp add: pow2_def powr_minus_divide)

lemma pow2_nat: "pow2 (int n) = 2 ^ n"
  by (simp add: pow2_def powr_realpow)

lemma rne_lower: "\<lfloor>x\<rfloor> \<le> rne x"
  by (simp add: rne_def Let_def)

lemma rne_upper: "rne x \<le> \<lfloor>x\<rfloor> + 1"
  by (simp add: rne_def Let_def)

lemma rne_of_int [simp]: "rne (real_of_int m) = m"
  by (simp add: rne_def)

lemma rne_error: "\<bar>real_of_int (rne x) - x\<bar> \<le> 1 / 2"
proof -
  have "real_of_int \<lfloor>x\<rfloor> \<le> x" and "x < real_of_int \<lfloor>x\<rfloor> + 1"
    by linarith+
  then show ?thesis
    unfolding rne_def Let_def by (auto simp: abs_if; linarith)
qed

lemma rne_near:
  assumes "\<bar>x - real_of_int m\<bar> < 1 / 2"
  shows "rne x = m"
proof (cases "real_of_int m \<le> x")
  case True
  then have "\<lfloor>x\<rfloor> = m"
    using assms by (intro floor_unique) (auto simp: abs_if)
  then show ?thesis
    using assms True by (simp add: rne_def Let_def abs_if)
next
  case False
  then have f: "\<lfloor>x\<rfloor> = m - 1"
    using assms by (intro floor_unique) (auto simp: abs_if)
  have "1 / 2 < x - real_of_int (m - 1)"
    using assms False by (simp add: abs_if)
  then show ?thesis
    unfolding rne_def Let_def f by simp
qed

lemma rne_tie:
  assumes "\<bar>x - real_of_int m\<bar> = 1 / 2" and "even m"
  shows "rne x = m"
proof (cases "real_of_int m \<le> x")
  case True
  then have x: "x = real_of_int m + 1 / 2"
    using assms(1) by (simp add: abs_if split: if_splits)
  then have "\<lfloor>x\<rfloor> = m"
    by (intro floor_unique) simp_all
  then show ?thesis
    using assms(2) x by (simp add: rne_def Let_def)
next
  case False
  then have x: "x = real_of_int m - 1 / 2"
    using assms(1) by (simp add: abs_if split: if_splits)
  then have f: "\<lfloor>x\<rfloor> = m - 1"
    by (intro floor_unique) simp_all
  have "x - real_of_int (m - 1) = 1 / 2"
    using x by simp
  then show ?thesis
    unfolding rne_def Let_def f using assms(2) by simp
qed

lemma rne_eqI:
  assumes "\<bar>x - real_of_int m\<bar> < 1 / 2 \<or> (\<bar>x - real_of_int m\<bar> = 1 / 2 \<and> even m)"
  shows "rne x = m"
  using assms rne_near rne_tie by blast

lemma rne_ge:
  assumes "real_of_int m \<le> x"
  shows "m \<le> rne x"
proof -
  have "m \<le> \<lfloor>x\<rfloor>"
    using assms by (simp add: le_floor_iff)
  then show ?thesis
    using rne_lower [of x] by linarith
qed

lemma rne_le:
  assumes "x \<le> real_of_int m"
  shows "rne x \<le> m"
proof (cases "x = real_of_int m")
  case True
  then show ?thesis by simp
next
  case False
  then have "\<lfloor>x\<rfloor> < m"
    using assms by (simp add: floor_less_iff)
  then show ?thesis
    using rne_upper [of x] by linarith
qed

lemma expo_ge: "- 1022 \<le> expo x"
  by (simp add: expo_def)

lemma expo_eq:
  assumes "pow2 k \<le> \<bar>x\<bar>" and "\<bar>x\<bar> < pow2 (k + 1)" and "- 1022 \<le> k"
  shows "expo x = k"
proof -
  have "0 < \<bar>x\<bar>"
    using assms(1) pow2_pos [of k] by linarith
  then have "\<lfloor>log 2 \<bar>x\<bar>\<rfloor> = k"
    using assms(1,2) by (simp add: floor_log_eq_powr_iff pow2_def)
  then show ?thesis
    using assms(3) by (simp add: expo_def)
qed

lemma abs_less_pow2_expo: "\<bar>x\<bar> < pow2 (expo x + 1)"
proof (cases "x = 0")
  case True
  then show ?thesis by simp
next
  case False
  define k where "k = \<lfloor>log 2 \<bar>x\<bar>\<rfloor>"
  have "\<bar>x\<bar> < 2 powr (real_of_int k + 1)"
    using False floor_log_eq_powr_iff [of "\<bar>x\<bar>" 2 k] by (simp add: k_def)
  also have "\<dots> \<le> pow2 (expo x + 1)"
    by (simp add: pow2_def expo_def k_def)
  finally show ?thesis .
qed

lemma pow2_expo_le:
  assumes "pow2 (- 1022) \<le> \<bar>x\<bar>"
  shows "pow2 (expo x) \<le> \<bar>x\<bar>"
proof -
  have pos: "0 < \<bar>x\<bar>"
    using assms pow2_pos [of "- 1022"] by linarith
  define k where "k = \<lfloor>log 2 \<bar>x\<bar>\<rfloor>"
  have k: "2 powr (real_of_int k) \<le> \<bar>x\<bar>"
    using pos floor_log_eq_powr_iff [of "\<bar>x\<bar>" 2 k] by (simp add: k_def)
  show ?thesis
  proof (cases "- 1022 \<le> k")
    case True
    then have "expo x = k"
      by (simp add: expo_def k_def)
    then show ?thesis
      using k by (simp add: pow2_def)
  next
    case False
    then have "expo x = - 1022"
      by (simp add: expo_def k_def)
    then show ?thesis
      using assms by simp
  qed
qed

lemma expo_le:
  assumes "\<bar>x\<bar> < pow2 (k + 1)" and "- 1022 \<le> k" and "x \<noteq> 0"
  shows "expo x \<le> k"
proof -
  note False = assms(3)
  have "log 2 \<bar>x\<bar> < real_of_int (k + 1)"
    using assms(1) False by (simp add: pow2_def log_less_iff)
  then have "\<lfloor>log 2 \<bar>x\<bar>\<rfloor> < k + 1"
    using floor_less_iff [of "log 2 \<bar>x\<bar>" "k + 1"] by simp
  then show ?thesis
    using assms(2) by (simp add: expo_def)
qed

lemma rnd_0 [simp]: "rnd 0 = 0"
  by (simp add: rnd_def)

lemma rnd_nonneg:
  assumes "0 \<le> x"
  shows "0 \<le> rnd x"
proof -
  have "real_of_int 0 \<le> x / pow2 (expo x - 52)"
    using assms by (simp add: divide_nonneg_pos)
  then have "0 \<le> rne (x / pow2 (expo x - 52))"
    by (rule rne_ge)
  then show ?thesis
    by (simp add: rnd_def)
qed

lemma rnd_nonpos:
  assumes "x \<le> 0"
  shows "rnd x \<le> 0"
proof -
  have "x / pow2 (expo x - 52) \<le> real_of_int 0"
    using assms by (simp add: divide_nonpos_pos)
  then have "rne (x / pow2 (expo x - 52)) \<le> 0"
    by (rule rne_le)
  then have "real_of_int (rne (x / pow2 (expo x - 52))) \<le> 0"
    by simp
  then show ?thesis
    by (simp add: rnd_def mult_nonpos_nonneg)
qed

text \<open>A rounded value stays within the binade of its argument, bounds included.\<close>

lemma rnd_abs_le: "\<bar>rnd x\<bar> \<le> pow2 (expo x + 1)"
proof (cases "x = 0")
  case True
  then show ?thesis by simp
next
  case False
  define u where "u = pow2 (expo x - 52)"
  define q where "q = x / u"
  have u: "0 < u"
    by (simp add: u_def)
  have "pow2 (expo x + 1) = pow2 53 * u"
    unfolding u_def pow2_add [symmetric] by (simp add: add.commute)
  then have p: "pow2 (expo x + 1) = real_of_int (2 ^ 53) * u"
    by (simp add: pow2_numeral)
  have "\<bar>x\<bar> < real_of_int (2 ^ 53) * u"
    using abs_less_pow2_expo [of x] p by simp
  then have "\<bar>q\<bar> < real_of_int (2 ^ 53)"
    using u by (simp add: q_def field_simps abs_mult)
  then have "q \<le> real_of_int (2 ^ 53)" and "real_of_int (- (2 ^ 53)) \<le> q"
    by (simp_all add: abs_if split: if_splits)
  then have "rne q \<le> 2 ^ 53" and "- (2 ^ 53) \<le> rne q"
    by (auto intro: rne_le rne_ge)
  then have "\<bar>real_of_int (rne q)\<bar> \<le> real_of_int (2 ^ 53)"
    by (simp add: abs_le_iff)
  then have "\<bar>real_of_int (rne q) * u\<bar> \<le> real_of_int (2 ^ 53) * u"
    using u by (simp add: abs_mult mult_right_mono)
  then show ?thesis
    using False p by (simp add: rnd_def q_def u_def)
qed

lemma rnd_ge_pow2_expo:
  assumes "pow2 (- 1022) \<le> x"
  shows "pow2 (expo x) \<le> rnd x"
proof -
  define u where "u = pow2 (expo x - 52)"
  have u: "0 < u"
    by (simp add: u_def)
  have x: "0 < x"
    using assms pow2_pos [of "- 1022"] by linarith
  have "pow2 (expo x) = pow2 52 * u"
    unfolding u_def pow2_add [symmetric] by simp
  then have p: "pow2 (expo x) = real_of_int (2 ^ 52) * u"
    by (simp add: pow2_numeral)
  have "pow2 (expo x) \<le> x"
    using pow2_expo_le [of x] assms x by simp
  then have "real_of_int (2 ^ 52) \<le> x / u"
    using u p by (simp add: field_simps)
  then have "2 ^ 52 \<le> rne (x / u)"
    by (rule rne_ge)
  then have "real_of_int (2 ^ 52) \<le> real_of_int (rne (x / u))"
    by linarith
  then have "real_of_int (2 ^ 52) * u \<le> real_of_int (rne (x / u)) * u"
    using u by (simp add: mult_right_mono)
  then show ?thesis
    using x p by (simp add: rnd_def u_def)
qed

lemma rnd_ge_1:
  assumes "1 \<le> x"
  shows "1 \<le> rnd x"
proof -
  have low: "pow2 (- 1022) \<le> x"
    using assms pow2_mono [of "- 1022" 0] by simp
  have "0 \<le> log 2 \<bar>x\<bar>"
    using assms by simp
  then have "0 \<le> expo x"
    by (simp add: expo_def)
  then have "pow2 0 \<le> pow2 (expo x)"
    by (rule pow2_mono)
  then show ?thesis
    using rnd_ge_pow2_expo [OF low] by simp
qed

text \<open>The rounding error is at most half a unit in the last place.\<close>

lemma rnd_error: "\<bar>rnd x - x\<bar> \<le> pow2 (expo x - 53)"
proof (cases "x = 0")
  case True
  then show ?thesis by simp
next
  case False
  define u where "u = pow2 (expo x - 52)"
  have u: "0 < u"
    by (simp add: u_def)
  have "pow2 (expo x - 52) = pow2 1 * pow2 (expo x - 53)"
    unfolding pow2_add [symmetric] by simp
  then have half: "pow2 (expo x - 53) = u / 2"
    by (simp add: u_def pow2_1)
  have "rnd x - x = (real_of_int (rne (x / u)) - x / u) * u"
    using False u by (simp add: rnd_def u_def field_simps)
  then have "\<bar>rnd x - x\<bar> = \<bar>real_of_int (rne (x / u)) - x / u\<bar> * u"
    using u by (simp add: abs_mult)
  also have "\<dots> \<le> 1 / 2 * u"
    using rne_error [of "x / u"] u by (intro mult_right_mono) simp_all
  finally show ?thesis
    by (simp add: half)
qed

text \<open>Evaluating a rounding: the binade and the nearest multiple decide it.\<close>

lemma rnd_eval:
  assumes "pow2 k \<le> \<bar>x\<bar>" and "\<bar>x\<bar> < pow2 (k + 1)" and "- 1022 \<le> k"
    and "\<bar>x / pow2 (k - 52) - real_of_int m\<bar> < 1 / 2 \<or>
         (\<bar>x / pow2 (k - 52) - real_of_int m\<bar> = 1 / 2 \<and> even m)"
  shows "rnd x = real_of_int m * pow2 (k - 52)"
proof -
  have "x \<noteq> 0"
    using assms(1) pow2_pos [of k] by auto
  moreover have "expo x = k"
    using assms(1-3) by (rule expo_eq)
  moreover have "rne (x / pow2 (k - 52)) = m"
    using assms(4) by (rule rne_eqI)
  ultimately show ?thesis
    by (simp add: rnd_def)
qed

lemma fl_finite:
  assumes "\<bar>x\<bar> < pow2 1023"
  shows "fl x = Fin (rnd x)"
proof (cases "x = 0")
  case True
  then show ?thesis
    by (simp add: fl_def Let_def)
next
  case False
  then have "expo x \<le> 1022"
    using assms by (intro expo_le) simp_all
  then have "pow2 (expo x + 1) \<le> pow2 1023"
    by (intro pow2_mono) simp
  then have "\<bar>rnd x\<bar> \<le> pow2 1023"
    using rnd_abs_le [of x] by linarith
  moreover have "pow2 1023 < pow2 1024"
    by (simp add: pow2_def)
  ultimately show ?thesis
    by (simp add: fl_def Let_def abs_le_iff)
qed

lemma fl_overflow:
  assumes "pow2 1024 \<le> x"
  shows "fl x = PInf"
proof -
  have low: "pow2 (- 1022) \<le> x"
    using assms pow2_mono [of "- 1022" 1024] by simp
  have "1024 \<le> log 2 \<bar>x\<bar>"
    using assms low pow2_pos [of "- 1022"] by (simp add: pow2_def le_log_iff)
  then have "1024 \<le> expo x"
    by (simp add: expo_def le_floor_iff)
  then have "pow2 1024 \<le> pow2 (expo x)"
    by (rule pow2_mono)
  then have "pow2 1024 \<le> rnd x"
    using rnd_ge_pow2_expo [OF low] by linarith
  then show ?thesis
    by (simp add: fl_def Let_def)
qed

lemma fl_eval:
  assumes "pow2 k \<le> \<bar>x\<bar>" and "\<bar>x\<bar> < pow2 (k + 1)" and "- 1022 \<le> k" and "k \<le> 1022"
    and "\<bar>x / pow2 (k - 52) - real_of_int m\<bar> < 1 / 2 \<or>
         (\<bar>x / pow2 (k - 52) - real_of_int m\<bar> = 1 / 2 \<and> even m)"
  shows "fl x = Fin (real_of_int m * pow2 (k - 52))"
proof -
  have "pow2 (k + 1) \<le> pow2 1023"
    using assms(4) by (intro pow2_mono) simp
  then have "\<bar>x\<bar> < pow2 1023"
    using assms(2) by linarith
  then have "fl x = Fin (rnd x)"
    by (rule fl_finite)
  then show ?thesis
    using rnd_eval [OF assms(1,2,3,5)] by simp
qed

text \<open>The integers below \<open>2\<^sup>5\<^sup>3\<close> in magnitude are doubles.\<close>

lemma abs_of_int_less: "\<bar>n\<bar> < 2 ^ 53 \<Longrightarrow> \<bar>real_of_int n\<bar> < 2 ^ 53"
  using of_int_less_iff [of "\<bar>n\<bar>" "2 ^ 53", where ?'a = real] by simp

lemma rnd_of_int:
  assumes "\<bar>n\<bar> < 2 ^ 53"
  shows "rnd (real_of_int n) = real_of_int n"
proof (cases "n = 0")
  case True
  then show ?thesis by simp
next
  case False
  define e where "e = expo (real_of_int n)"
  have "\<bar>real_of_int n\<bar> < pow2 (52 + 1)"
    using abs_of_int_less [OF assms] by (simp add: pow2_numeral)
  then have e52: "e \<le> 52"
    unfolding e_def using False expo_le [of "real_of_int n" 52] by simp
  have "1 \<le> \<bar>real_of_int n\<bar>"
    using False by (simp add: abs_if)
  then have "0 \<le> log 2 \<bar>real_of_int n\<bar>"
    by simp
  then have e0: "0 \<le> e"
    by (simp add: e_def expo_def)
  define d where "d = nat (52 - e)"
  have "pow2 (e - 52) * pow2 (int d) = pow2 0"
    unfolding pow2_add [symmetric] using e52 by (simp add: d_def)
  then have inv: "pow2 (e - 52) * 2 ^ d = 1"
    by (simp add: pow2_nat)
  then have "real_of_int n / pow2 (e - 52) = real_of_int n * 2 ^ d"
    by (simp add: field_simps)
  also have "\<dots> = real_of_int (n * 2 ^ d)"
    by simp
  finally have "rne (real_of_int n / pow2 (e - 52)) = n * 2 ^ d"
    by (simp only: rne_of_int)
  then have "rnd (real_of_int n) = real_of_int (n * 2 ^ d) * pow2 (e - 52)"
    using False by (simp add: rnd_def e_def)
  also have "\<dots> = real_of_int n * (pow2 (e - 52) * 2 ^ d)"
    by simp
  finally show ?thesis
    by (simp add: inv)
qed

lemma fl_of_int:
  assumes "\<bar>n\<bar> < 2 ^ 53"
  shows "fl (real_of_int n) = Fin (real_of_int n)"
proof -
  have "\<bar>real_of_int n\<bar> < 2 ^ 53"
    using assms by (rule abs_of_int_less)
  also have "(2::real) ^ 53 < pow2 1023"
    by (simp add: pow2_numeral)
  finally have "fl (real_of_int n) = Fin (rnd (real_of_int n))"
    by (rule fl_finite)
  then show ?thesis
    using rnd_of_int [OF assms] by simp
qed

lemma fl_0 [simp]: "fl 0 = Fin 0"
  using fl_of_int [of 0] by simp

lemma fl_1 [simp]: "fl 1 = Fin 1"
  using fl_of_int [of 1] by simp

lemma fl_numeral [simp]:
  "(numeral n :: int) < 9007199254740992 \<Longrightarrow> fl (numeral n) = Fin (numeral n)"
  using fl_of_int [of "numeral n"] by simp

lemma fl_neg_numeral [simp]:
  "(numeral n :: int) < 9007199254740992 \<Longrightarrow> fl (- numeral n) = Fin (- numeral n)"
  using fl_of_int [of "- numeral n"] by simp

section \<open>Properties of the operations\<close>

lemma fl_not_NaN [simp]: "fl x \<noteq> NaN"
  by (simp add: fl_def Let_def)

lemma fl_Fin_D: "fl x = Fin r \<Longrightarrow> r = rnd x"
  by (simp add: fl_def Let_def split: if_splits)

lemma nonneg_simps [simp]:
  "nonneg (Fin x) \<longleftrightarrow> 0 \<le> x" "nonneg PInf" "\<not> nonneg NInf" "\<not> nonneg NaN"
  by (simp_all add: nonneg_def)

lemma nonneg_fl: "0 \<le> x \<Longrightarrow> nonneg (fl x)"
  using rnd_nonneg [of x] pow2_pos [of 1024]
  by (auto simp: fl_def Let_def)

lemma nonneg_cases:
  assumes "nonneg a"
  obtains (Fin) x where "a = Fin x" and "0 \<le> x" | (PInf) "a = PInf"
  using assms by (cases a) auto

lemma not_NaN_fsub_Fin: "b \<noteq> NaN \<Longrightarrow> fsub (Fin a) b \<noteq> NaN"
  by (cases b) (simp_all add: fsub_def fadd_def fneg_def)

lemma nonneg_fmul_self: "a \<noteq> NaN \<Longrightarrow> nonneg (fmul a a)"
  by (cases a) (simp_all add: fmul_def nonneg_fl is_neg_def)

lemma nonneg_fadd: "nonneg a \<Longrightarrow> nonneg b \<Longrightarrow> nonneg (fadd a b)"
  by (cases a; cases b) (simp_all add: fadd_def nonneg_fl)

lemma nonneg_sqrt: "nonneg a \<Longrightarrow> nonneg (Math_sqrt a)"
  by (cases a) (simp_all add: Math_sqrt_def nonneg_fl)

lemma nonneg_dist_js:
  assumes "x0 \<noteq> NaN" and "y0 \<noteq> NaN"
  shows "nonneg (dist_js x0 y0 (Fin x1) (Fin y1))"
  unfolding dist_js_def
  by (intro nonneg_sqrt nonneg_fadd nonneg_fmul_self not_NaN_fsub_Fin assms)

lemma nonneg_fdiv_pos: "nonneg a \<Longrightarrow> 0 < r \<Longrightarrow> nonneg (fdiv a (Fin r))"
  by (cases a) (simp_all add: fdiv_def nonneg_fl is_neg_def)

lemma nonneg_fmul_pos: "0 < c \<Longrightarrow> nonneg a \<Longrightarrow> nonneg (fmul (Fin c) a)"
  by (cases a) (simp_all add: fmul_def nonneg_fl is_neg_def)

lemma nonneg_fmul_pos_right: "nonneg a \<Longrightarrow> 0 < c \<Longrightarrow> nonneg (fmul a (Fin c))"
  by (cases a) (simp_all add: fmul_def nonneg_fl is_neg_def)

lemma fl_1_3: "fl 1.3 = Fin (5854679515581645 / 4503599627370496)"
  using fl_eval [of 0 "13 / 10" 5854679515581645]
  by (simp add: pow2_1 pow2_neg_numeral)

lemma fl_1_1: "fl 1.1 = Fin (2476979795053773 / 2251799813685248)"
  using fl_eval [of 0 "11 / 10" 4953959590107546]
  by (simp add: pow2_1 pow2_neg_numeral)

text \<open>On a canvas of positive width the divisor \<open>canvas.width * 1.3\<close> is finite and positive.\<close>

lemma num_of_word_nat:
  obtains n where "num_of_word w = Fin (real n)" and "n = unat w" and "n < 2 ^ 32"
proof
  show "num_of_word w = Fin (real (unat w))"
    by (simp only: num_of_word_def)
  show "unat w = unat w" ..
  show "unat w < 2 ^ 32"
    using unsigned_less [of w, where ?'a = nat] by simp
qed

lemma width_times_1_3:
  assumes "0 < w"
  shows "\<exists>r. fmul (num_of_word w) (fl 1.3) = Fin r \<and> 0 < r"
proof -
  obtain n where w: "num_of_word w = Fin (real n)" and n: "n = unat w" "n < 2 ^ 32"
    by (rule num_of_word_nat)
  define x where "x = real n * (5854679515581645 / 4503599627370496)"
  have "0 < n"
    using assms n(1) by (simp add: word_less_nat_alt)
  then have n1: "1 \<le> real n"
    by simp
  have n2: "real n < 2 ^ 32"
    using n(2) of_nat_less_iff [of n "2 ^ 32", where ?'a = real] by simp
  have x1: "1 \<le> x"
    using n1 by (simp add: x_def)
  have "x < 2 ^ 33"
    using n1 n2 by (simp add: x_def)
  also have "(2::real) ^ 33 < pow2 1023"
    by (simp add: pow2_numeral)
  finally have "\<bar>x\<bar> < pow2 1023"
    using x1 by simp
  then have "fl x = Fin (rnd x)"
    by (rule fl_finite)
  moreover have "0 < rnd x"
    using rnd_ge_1 [OF x1] by simp
  ultimately show ?thesis
    by (auto simp: fmul_def w fl_1_3 x_def)
qed

lemma fless_simps [simp]:
  "fless (Fin x) (Fin y) \<longleftrightarrow> x < y" "fless (Fin x) PInf" "\<not> fless (Fin x) NInf"
  "\<not> fless a NaN" "\<not> fless NaN a" "\<not> fless PInf a"
  by (cases a; simp add: fless_def)+

lemma update_len_cases:
  assumes "nonneg p"
  shows "(p = PInf \<and> (if fless (Fin 30) p then Fin 30 else p) = Fin 30) \<or>
         (\<exists>q. p = Fin q \<and> 0 \<le> q \<and> (if fless (Fin 30) p then Fin 30 else p) = Fin (min q 30))"
  using assms by (cases p rule: nonneg_cases) (auto simp: min_def)

text \<open>
  C1. On a canvas of positive width, for every vector whose anchor coordinates are not
  \<open>NaN\<close> and every pointer position, \<open>update\<close> stores a length in \<open>[0, 30]\<close>. With
  \<open>p\<close> the Number \<open>200 * factor\<close>, where \<open>factor = d / (canvas.width * 1.3)\<close> and \<open>d\<close>
  is the distance to the pointer, the stored length is \<open>min p 30\<close>: it is 30 also where
  the pointer is so far that \<open>p\<close> is \<open>Infinity\<close>.
\<close>

theorem Vector_update_len_capped:
  assumes "0 < width cv" and "midX v \<noteq> NaN" and "midY v \<noteq> NaN"
  shows "\<exists>p r. p = fmul (Fin 200)
                  (fdiv (dist_js (midX v) (midY v) (Fin mouseX) (Fin mouseY))
                        (fmul (num_of_word (width cv)) (fl 1.3))) \<and>
           len (fst (Vector_update eng cv v mouseX mouseY)) = Some (Fin r) \<and>
           0 \<le> r \<and> r \<le> 30 \<and>
           ((p = PInf \<and> r = 30) \<or> (\<exists>q. p = Fin q \<and> 0 \<le> q \<and> r = min q 30))"
proof -
  define d where "d = dist_js (midX v) (midY v) (Fin mouseX) (Fin mouseY)"
  define W where "W = fmul (num_of_word (width cv)) (fl 1.3)"
  define p where "p = fmul (Fin 200) (fdiv d W)"
  obtain r where W: "W = Fin r" "0 < r"
    using width_times_1_3 [OF assms(1)] unfolding W_def by blast
  have "nonneg d"
    unfolding d_def using assms(2,3) by (rule nonneg_dist_js)
  then have "nonneg (fdiv d W)"
    unfolding W using W(2) by (rule nonneg_fdiv_pos)
  then have "nonneg p"
    unfolding p_def by (intro nonneg_fmul_pos) simp_all
  then have cases: "(p = PInf \<and> (if fless (Fin 30) p then Fin 30 else p) = Fin 30) \<or>
         (\<exists>q. p = Fin q \<and> 0 \<le> q \<and> (if fless (Fin 30) p then Fin 30 else p) = Fin (min q 30))"
    by (rule update_len_cases)
  have len: "len (fst (Vector_update eng cv v mouseX mouseY)) = Some (if fless (Fin 30) p then Fin 30 else p)"
    by (simp add: Vector_update_def Let_def update_len_def update_factor_def p_def d_def W_def)
  from cases show ?thesis
  proof
    assume "p = PInf \<and> (if fless (Fin 30) p then Fin 30 else p) = Fin 30"
    then show ?thesis
      using len unfolding p_def d_def W_def by (intro exI [of _ PInf] exI [of _ 30]) simp
  next
    assume "\<exists>q. p = Fin q \<and> 0 \<le> q \<and> (if fless (Fin 30) p then Fin 30 else p) = Fin (min q 30)"
    then obtain q where q: "p = Fin q" "0 \<le> q" "(if fless (Fin 30) p then Fin 30 else p) = Fin (min q 30)"
      by blast
    show ?thesis
      apply (rule exI [of _ "Fin q"], rule exI [of _ "min q 30"])
      using len q unfolding p_def d_def W_def by simp
  qed
qed


lemma ev_w1000: "fmul (Fin 1000) (Fin (5854679515581645 / 4503599627370496)) = Fin 1300"
  using fl_eval [of 10 "731834939447705625 / 562949953421312" 5717460464435200]
  by (simp add: fmul_def pow2_1 pow2_numeral pow2_neg_numeral)

lemma ev_f100: "fdiv (Fin 100) (Fin 1300) = Fin (1385722962267845 / 18014398509481984)"
  using fl_eval [of "- 4" "1 / 13" 5542891849071380]
  by (simp add: fdiv_def pow2_1 pow2_numeral pow2_neg_numeral)

lemma ev_len100: "fmul (Fin 200) (Fin (1385722962267845 / 18014398509481984)) = Fin (8660768514174031 / 562949953421312)"
  using fl_eval [of 3 "34643074056696125 / 2251799813685248" 8660768514174031]
  by (simp add: fmul_def pow2_1 pow2_numeral pow2_neg_numeral)

lemma ev_w396: "fmul (Fin 396) (Fin (5854679515581645 / 4503599627370496)) = Fin (4528228687832679 / 8796093022208)"
  using fl_eval [of 9 "579613272042582855 / 1125899906842624" 4528228687832679]
  by (simp add: fmul_def pow2_1 pow2_numeral pow2_neg_numeral)

lemma ev_f65: "fdiv (Fin 65) (Fin (4528228687832679 / 8796093022208)) = Fin (2274545266348735 / 18014398509481984)"
  using fl_eval [of "- 3" "571746046443520 / 4528228687832679" 4549090532697470]
  by (simp add: fdiv_def pow2_1 pow2_numeral pow2_neg_numeral)

lemma ev_360f65: "fmul (Fin 360) (Fin (2274545266348735 / 18014398509481984)) = Fin (6397158561605817 / 140737488355328)"
  using fl_eval [of 5 "102354536985693075 / 2251799813685248" 6397158561605817]
  by (simp add: fmul_def pow2_1 pow2_numeral pow2_neg_numeral)

lemma ev_p65: "fmul (Fin (6397158561605817 / 140737488355328)) (Fin (2476979795053773 / 2251799813685248)) = Fin (7036874417766399 / 140737488355328)"
  using fl_eval [of 5 "15845632502852865870800744597541 / 316912650057057350374175801344" 7036874417766399]
  by (simp add: fmul_def pow2_1 pow2_numeral pow2_neg_numeral)

lemma ev_f157: "fdiv (Fin 157) (Fin 1300) = Fin (4351170101521033 / 36028797018963968)"
  using fl_eval [of "- 4" "157 / 1300" 8702340203042066]
  by (simp add: fdiv_def pow2_1 pow2_numeral pow2_neg_numeral)

lemma ev_len157: "fmul (Fin 200) (Fin (4351170101521033 / 36028797018963968)) = Fin (3399351641813307 / 140737488355328)"
  using fl_eval [of 4 "108779252538025825 / 4503599627370496" 6798703283626614]
  by (simp add: fmul_def pow2_1 pow2_numeral pow2_neg_numeral)

lemma ev_dx157: "fmul (Fin (3399351641813307 / 140737488355328)) (Fin 1) = Fin (3399351641813307 / 140737488355328)"
  using fl_eval [of 4 "3399351641813307 / 140737488355328" 6798703283626614]
  by (simp add: fmul_def pow2_1 pow2_numeral pow2_neg_numeral)

lemma ev_h157: "fdiv (Fin (3399351641813307 / 140737488355328)) (Fin 2) = Fin (3399351641813307 / 281474976710656)"
  using fl_eval [of 3 "3399351641813307 / 281474976710656" 6798703283626614]
  by (simp add: fdiv_def pow2_1 pow2_numeral pow2_neg_numeral)

lemma ev_x0: "fadd (Fin 20) (Fin (3399351641813307 / 281474976710656)) = Fin (2257212794006607 / 70368744177664)"
  using fl_eval [of 5 "9028851176026427 / 281474976710656" 4514425588013214]
  by (simp add: fadd_def pow2_1 pow2_numeral pow2_neg_numeral)

lemma ev_x1: "fsub (Fin (2257212794006607 / 70368744177664)) (Fin (3399351641813307 / 140737488355328)) = Fin (1115073946199907 / 140737488355328)"
  using fl_eval [of 2 "1115073946199907 / 140737488355328" 8920591569599256]
  by (simp add: fsub_def fadd_def fneg_def pow2_1 pow2_numeral pow2_neg_numeral)

lemma ev_360f157: "fmul (Fin 360) (Fin (4351170101521033 / 36028797018963968)) = Fin (6118832955263953 / 140737488355328)"
  using fl_eval [of 5 "195802654568446485 / 4503599627370496" 6118832955263953]
  by (simp add: fmul_def pow2_1 pow2_numeral pow2_neg_numeral)

lemma ev_p157: "fmul (Fin (6118832955263953 / 140737488355328)) (Fin (2476979795053773 / 2251799813685248)) = Fin (6730716250790349 / 140737488355328)"
  using fl_eval [of 5 "15156225599497978477333043544669 / 316912650057057350374175801344" 6730716250790349]
  by (simp add: fmul_def pow2_1 pow2_numeral pow2_neg_numeral)

lemma Math_sqrt_square: "0 \<le> y \<Longrightarrow> fl y = Fin y \<Longrightarrow> Math_sqrt (Fin (y * y)) = Fin y"
  by (simp add: Math_sqrt_def real_sqrt_mult_self)

lemma dist_js_horizontal:
  assumes "fsub (Fin x1) (Fin x0) = Fin dx" and "fl (dx * dx) = Fin (dx * dx)" and "fl \<bar>dx\<bar> = Fin \<bar>dx\<bar>"
  shows "dist_js (Fin x0) (Fin y) (Fin x1) (Fin y) = Fin \<bar>dx\<bar>"
  using assms by (simp add: dist_js_def fsub_def fadd_def fneg_def fmul_def Math_sqrt_def)

lemma fsub_self [simp]: "fsub (Fin x) (Fin x) = Fin 0"
  by (simp add: fsub_def fadd_def fneg_def)

lemma num_of_word_numeral:
  "num_of_word 1000 = Fin 1000" "num_of_word 396 = Fin 396"
  by (simp_all add: num_of_word_def)

declare digits.simps [simp del]

lemma dist_100: "dist_js (Fin 0) (Fin 0) (Fin 100) (Fin 0) = Fin 100"
  by (rule dist_js_horizontal [of 100 0 100 0, simplified]) (simp_all add: fsub_def fadd_def fneg_def)

lemma dist_65: "dist_js (Fin 20) (Fin 20) (Fin 85) (Fin 20) = Fin 65"
  by (rule dist_js_horizontal [of 85 20 65 20, simplified]) (simp_all add: fsub_def fadd_def fneg_def)

lemma dist_157: "dist_js (Fin 20) (Fin 20) (Fin 177) (Fin 20) = Fin 157"
  by (rule dist_js_horizontal [of 177 20 157 20, simplified]) (simp_all add: fsub_def fadd_def fneg_def)

text \<open>
  On a canvas 1000 wide, the vector at \<open>(0, 0)\<close> and the pointer at \<open>(100, 0)\<close>: the
  length is the double 15.384615384615385.
\<close>

theorem Vector_update_len_capped_witness:
  "0 < width \<lparr>width = 1000, height = 500\<rparr> \<and>
   midX (new_Vector (Fin 0) (Fin 0)) \<noteq> NaN \<and> midY (new_Vector (Fin 0) (Fin 0)) \<noteq> NaN \<and>
   (\<forall>eng. len (fst (Vector_update eng \<lparr>width = 1000, height = 500\<rparr> (new_Vector (Fin 0) (Fin 0)) 100 0))
      = Some (Fin (8660768514174031 / 562949953421312)))"
proof -
  have "len (fst (Vector_update eng \<lparr>width = 1000, height = 500\<rparr> (new_Vector (Fin 0) (Fin 0)) 100 0))
      = Some (Fin (8660768514174031 / 562949953421312))" for eng
    using Vector_update_len_capped [of "\<lparr>width = 1000, height = 500\<rparr>" "new_Vector (Fin 0) (Fin 0)" 100 0 eng]
    by (auto simp: new_Vector_def dist_100 fl_1_3 num_of_word_numeral ev_w1000 ev_f100 ev_len100)
  then show ?thesis
    by (simp add: new_Vector_def)
qed


lemma frem_floor_360:
  assumes "0 \<le> q"
  shows "frem (Math_floor (Fin q)) (Fin 360) = Fin (real_of_int (\<lfloor>q\<rfloor> mod 360))"
proof -
  define n where "n = \<lfloor>q\<rfloor>"
  have n: "0 \<le> n"
    using assms by (simp add: n_def)
  have "real_of_int n / 360 = real_of_int n / real_of_int 360"
    by simp
  then have "\<lfloor>real_of_int n / 360\<rfloor> = n div 360"
    by (simp only: floor_divide_of_int_eq)
  then have "trunc (real_of_int n / 360) = n div 360"
    using n by (simp add: trunc_def)
  then have "real_of_int n - 360 * real_of_int (trunc (real_of_int n / 360)) = real_of_int (n - 360 * (n div 360))"
    by simp
  also have "n - 360 * (n div 360) = n mod 360"
    by (simp add: minus_mult_div_eq_mod)
  finally show ?thesis
    by (simp add: frem_def Math_floor_def n_def)
qed

lemma number_to_string_nat: "0 \<le> h \<Longrightarrow> number_to_string (Fin (real_of_int h)) = digits (nat h)"
  by (simp add: number_to_string_def)

lemma update_hue_cases:
  assumes "nonneg p"
  shows "(\<exists>q. p = Fin q \<and> 0 \<le> q \<and>
            hsl (frem (Math_floor p) (Fin 360)) = ''hsl('' @ digits (nat (\<lfloor>q\<rfloor> mod 360)) @ '', 70%, 35%)'') \<or>
         (p = PInf \<and> hsl (frem (Math_floor p) (Fin 360)) = ''hsl(NaN, 70%, 35%)'')"
  using assms
proof (cases rule: nonneg_cases)
  case (Fin q)
  then show ?thesis
    by (simp add: hsl_def frem_floor_360 number_to_string_nat)
next
  case PInf
  then show ?thesis
    by (simp add: hsl_def Math_floor_def frem_def number_to_string_def)
qed

text \<open>
  C2, amended. On a canvas of positive width, for every vector whose anchor coordinates
  are not \<open>NaN\<close> and every pointer position, let \<open>p\<close> be the Number
  \<open>360 * factor * 1.1\<close>, every operation rounded. Where \<open>p\<close> is finite it is not
  negative, the hue is \<open>\<lfloor>p\<rfloor> mod 360\<close>, it lies in \<open>[0, 360)\<close>, and the vector is drawn
  with that hue. Otherwise \<open>p\<close> is \<open>Infinity\<close> and the vector is drawn with the hue
  \<open>NaN\<close>.
\<close>

theorem Vector_update_hue_range:
  assumes "0 < width cv" and "midX v \<noteq> NaN" and "midY v \<noteq> NaN"
  shows "\<exists>p. p = fmul (fmul (Fin 360)
                  (fdiv (dist_js (midX v) (midY v) (Fin mouseX) (Fin mouseY))
                        (fmul (num_of_word (width cv)) (fl 1.3)))) (fl 1.1) \<and>
           ((\<exists>q h. p = Fin q \<and> 0 \<le> q \<and> h = \<lfloor>q\<rfloor> mod 360 \<and> 0 \<le> h \<and> h < 360 \<and>
               snd (Vector_update eng cv v mouseX mouseY) =
                 Vector_draw eng (fst (Vector_update eng cv v mouseX mouseY))
                   (''hsl('' @ digits (nat h) @ '', 70%, 35%)'')) \<or>
            (p = PInf \<and>
               snd (Vector_update eng cv v mouseX mouseY) =
                 Vector_draw eng (fst (Vector_update eng cv v mouseX mouseY)) ''hsl(NaN, 70%, 35%)''))"
proof -
  define d where "d = dist_js (midX v) (midY v) (Fin mouseX) (Fin mouseY)"
  define W where "W = fmul (num_of_word (width cv)) (fl 1.3)"
  define p where "p = fmul (fmul (Fin 360) (fdiv d W)) (fl 1.1)"
  obtain r where W: "W = Fin r" "0 < r"
    using width_times_1_3 [OF assms(1)] unfolding W_def by blast
  have "nonneg d"
    unfolding d_def using assms(2,3) by (rule nonneg_dist_js)
  then have "nonneg (fdiv d W)"
    unfolding W using W(2) by (rule nonneg_fdiv_pos)
  then have "nonneg (fmul (Fin 360) (fdiv d W))"
    by (intro nonneg_fmul_pos) simp_all
  then have "nonneg p"
    unfolding p_def fl_1_1 by (rule nonneg_fmul_pos_right) simp
  then have cases: "(\<exists>q. p = Fin q \<and> 0 \<le> q \<and>
            hsl (frem (Math_floor p) (Fin 360)) = ''hsl('' @ digits (nat (\<lfloor>q\<rfloor> mod 360)) @ '', 70%, 35%)'') \<or>
         (p = PInf \<and> hsl (frem (Math_floor p) (Fin 360)) = ''hsl(NaN, 70%, 35%)'')"
    by (rule update_hue_cases)
  have draw: "snd (Vector_update eng cv v mouseX mouseY) =
      Vector_draw eng (fst (Vector_update eng cv v mouseX mouseY)) (hsl (frem (Math_floor p) (Fin 360)))"
    by (simp add: Vector_update_def Let_def update_hue_def update_factor_def p_def d_def W_def)
  from cases show ?thesis
  proof
    assume "\<exists>q. p = Fin q \<and> 0 \<le> q \<and>
        hsl (frem (Math_floor p) (Fin 360)) = ''hsl('' @ digits (nat (\<lfloor>q\<rfloor> mod 360)) @ '', 70%, 35%)''"
    then obtain q where q: "p = Fin q" "0 \<le> q"
      "hsl (frem (Math_floor p) (Fin 360)) = ''hsl('' @ digits (nat (\<lfloor>q\<rfloor> mod 360)) @ '', 70%, 35%)''"
      by blast
    have "snd (Vector_update eng cv v mouseX mouseY) =
        Vector_draw eng (fst (Vector_update eng cv v mouseX mouseY))
          (''hsl('' @ digits (nat (\<lfloor>q\<rfloor> mod 360)) @ '', 70%, 35%)'')"
      using draw unfolding q(3) .
    then have "\<exists>q h. p = Fin q \<and> 0 \<le> q \<and> h = \<lfloor>q\<rfloor> mod 360 \<and> 0 \<le> h \<and> h < 360 \<and>
               snd (Vector_update eng cv v mouseX mouseY) =
                 Vector_draw eng (fst (Vector_update eng cv v mouseX mouseY))
                   (''hsl('' @ digits (nat h) @ '', 70%, 35%)'')"
      using q(1,2) by (intro exI [of _ q] exI [of _ "\<lfloor>q\<rfloor> mod 360"]) simp
    then show ?thesis
      unfolding p_def d_def W_def by blast
  next
    assume a: "p = PInf \<and> hsl (frem (Math_floor p) (Fin 360)) = ''hsl(NaN, 70%, 35%)''"
    then have h: "hsl (frem (Math_floor p) (Fin 360)) = ''hsl(NaN, 70%, 35%)''"
      by blast
    have "snd (Vector_update eng cv v mouseX mouseY) =
        Vector_draw eng (fst (Vector_update eng cv v mouseX mouseY)) ''hsl(NaN, 70%, 35%)''"
      using draw unfolding h .
    with a have "p = PInf \<and>
               snd (Vector_update eng cv v mouseX mouseY) =
                 Vector_draw eng (fst (Vector_update eng cv v mouseX mouseY)) ''hsl(NaN, 70%, 35%)''"
      by blast
    then show ?thesis
      unfolding p_def d_def W_def by blast
  qed
qed

lemma digits_49: "digits 49 = ''49''"
  by (simp add: digits.simps digit_def)

lemma p_65:
  "fmul (fmul (Fin 360)
      (fdiv (dist_js (Fin 20) (Fin 20) (Fin 85) (Fin 20)) (fmul (num_of_word 396) (fl 1.3)))) (fl 1.1)
     = Fin (7036874417766399 / 140737488355328)"
  by (simp add: dist_65 fl_1_3 fl_1_1 num_of_word_numeral ev_w396 ev_f65 ev_360f65 ev_p65)

text \<open>
  On a canvas 396 wide, the vector at \<open>(20, 20)\<close> and the pointer at \<open>(85, 20)\<close>: the
  rounded product is just below 50 and the hue is 49.
\<close>

theorem Vector_update_hue_range_witness:
  "0 < width \<lparr>width = 396, height = 300\<rparr> \<and>
   midX (new_Vector (Fin 20) (Fin 20)) \<noteq> NaN \<and> midY (new_Vector (Fin 20) (Fin 20)) \<noteq> NaN \<and>
   (\<forall>eng. snd (Vector_update eng \<lparr>width = 396, height = 300\<rparr> (new_Vector (Fin 20) (Fin 20)) 85 20) =
      Vector_draw eng (fst (Vector_update eng \<lparr>width = 396, height = 300\<rparr> (new_Vector (Fin 20) (Fin 20)) 85 20))
        ''hsl(49, 70%, 35%)'')"
proof -
  let ?cv = "\<lparr>width = 396, height = 300\<rparr>"
  let ?v = "new_Vector (Fin 20) (Fin 20)"
  have hyp: "0 < width ?cv" "midX ?v \<noteq> NaN" "midY ?v \<noteq> NaN"
    by (simp_all add: new_Vector_def)
  have fl49: "\<lfloor>7036874417766399 / 140737488355328 :: real\<rfloor> mod 360 = 49"
    by simp
  have "snd (Vector_update eng ?cv ?v 85 20) = Vector_draw eng (fst (Vector_update eng ?cv ?v 85 20))
        ''hsl(49, 70%, 35%)''" for eng
  proof -
    have "\<exists>q h. Fin (7036874417766399 / 140737488355328) = Fin q \<and> 0 \<le> q \<and> h = \<lfloor>q\<rfloor> mod 360 \<and>
        0 \<le> h \<and> h < 360 \<and>
        snd (Vector_update eng ?cv ?v 85 20) =
          Vector_draw eng (fst (Vector_update eng ?cv ?v 85 20)) (''hsl('' @ digits (nat h) @ '', 70%, 35%)'')"
      using Vector_update_hue_range [OF hyp, of 85 20 eng] by (simp add: new_Vector_def p_65)
    then obtain q h where q: "Fin (7036874417766399 / 140737488355328) = Fin q"
      and h: "h = \<lfloor>q\<rfloor> mod 360"
      and draw: "snd (Vector_update eng ?cv ?v 85 20) =
          Vector_draw eng (fst (Vector_update eng ?cv ?v 85 20)) (''hsl('' @ digits (nat h) @ '', 70%, 35%)'')"
      by blast
    from q have "q = 7036874417766399 / 140737488355328"
      by (simp only: num.inject)
    then have "h = 49"
      using h fl49 by (simp only:)
    then show ?thesis
      using draw by (simp add: digits_49)
  qed
  then show ?thesis
    using hyp by blast
qed

lemma pow2_strict_mono: "j < k \<Longrightarrow> pow2 j < pow2 k"
  by (simp add: pow2_def)

lemma fl_pow2:
  assumes "- 1022 \<le> k" and "k \<le> 1022"
  shows "fl (pow2 k) = Fin (pow2 k)"
proof -
  have "pow2 k = pow2 52 * pow2 (k - 52)"
    unfolding pow2_add [symmetric] by simp
  then have split: "pow2 k = real_of_int (2 ^ 52) * pow2 (k - 52)"
    by (simp add: pow2_numeral)
  then have "pow2 k / pow2 (k - 52) = real_of_int (2 ^ 52)"
    by (simp add: field_simps)
  then have "\<bar>pow2 k / pow2 (k - 52) - real_of_int (2 ^ 52)\<bar> < 1 / 2"
    by simp
  then have "fl (pow2 k) = Fin (real_of_int (2 ^ 52) * pow2 (k - 52))"
    using assms pow2_strict_mono [of k "k + 1"]
    by (intro fl_eval) simp_all
  then show ?thesis
    using split by simp
qed

lemma dist_overflow: "dist_js (Fin 0) (Fin 0) (Fin (pow2 600)) (Fin 0) = PInf"
proof -
  have "pow2 600 * pow2 600 = pow2 1200"
    unfolding pow2_add [symmetric] by simp
  moreover have "pow2 1024 \<le> pow2 1200"
    by (rule pow2_mono) simp
  ultimately have "fl (pow2 600 * pow2 600) = PInf"
    by (simp add: fl_overflow)
  then show ?thesis
    by (simp add: dist_js_def fsub_def fadd_def fneg_def fmul_def Math_sqrt_def fl_pow2)
qed

text \<open>
  C2, as the claim states it, fails for a pointer so far from the anchor that the
  square of the distance overflows. At the pointer \<open>(2\<^sup>6\<^sup>0\<^sup>0, 0)\<close> the distance and the
  factor are \<open>Infinity\<close>, the hue \<open>Math.floor(Infinity) % 360\<close> is \<open>NaN\<close>, which is not
  in \<open>[0, 360)\<close>, and the vector is drawn with the colour \<open>hsl(NaN, 70%, 35%)\<close>.
\<close>

theorem Vector_update_hue_overflow_counterexample:
  "update_hue (update_factor \<lparr>width = 1000, height = 500\<rparr>
      (dist_js (Fin 0) (Fin 0) (Fin (pow2 600)) (Fin 0))) = NaN \<and>
   (\<forall>eng. snd (Vector_update eng \<lparr>width = 1000, height = 500\<rparr> (new_Vector (Fin 0) (Fin 0)) (pow2 600) 0) =
      Vector_draw eng
        (fst (Vector_update eng \<lparr>width = 1000, height = 500\<rparr> (new_Vector (Fin 0) (Fin 0)) (pow2 600) 0))
        ''hsl(NaN, 70%, 35%)'')"
proof -
  have f: "update_factor \<lparr>width = 1000, height = 500\<rparr> PInf = PInf"
    by (simp add: update_factor_def num_of_word_numeral fl_1_3 ev_w1000 fdiv_def is_neg_def)
  have h: "update_hue PInf = NaN"
    by (simp add: update_hue_def fmul_def fl_1_1 is_neg_def Math_floor_def frem_def)
  show ?thesis
    by (simp add: Vector_update_def Let_def new_Vector_def dist_overflow f h hsl_def number_to_string_def)
qed

lemma hsl_0: "hsl (Fin 0) = ''hsl(0, 70%, 35%)''"
  by (simp add: hsl_def number_to_string_def digits.simps digit_def)

text \<open>
  C6. On a canvas of positive width, for every vector, a pointer exactly at the anchor
  gives angle 0, distance 0, factor 0, hue 0 and length 0: \<open>update\<close> returns the vector
  with angle 0 and length 0 and draws it in \<open>hsl(0, 70%, 35%)\<close>. Nothing is thrown.
\<close>

theorem Vector_update_at_anchor:
  assumes "0 < width cv" and "midX v = Fin ax" and "midY v = Fin ay"
  shows "angleBetween eng (midX v) (midY v) (Fin ax) (Fin ay) = Fin 0 \<and>
         dist_js (midX v) (midY v) (Fin ax) (Fin ay) = Fin 0 \<and>
         update_factor cv (Fin 0) = Fin 0 \<and> update_hue (Fin 0) = Fin 0 \<and> update_len (Fin 0) = Fin 0 \<and>
         Vector_update eng cv v ax ay =
           (v\<lparr>angle := Some (Fin 0), len := Some (Fin 0)\<rparr>,
            Vector_draw eng (v\<lparr>angle := Some (Fin 0), len := Some (Fin 0)\<rparr>) ''hsl(0, 70%, 35%)'')"
proof -
  obtain r where W: "fmul (num_of_word (width cv)) (fl 1.3) = Fin r" "0 < r"
    using width_times_1_3 [OF assms(1)] by blast
  have a: "angleBetween eng (midX v) (midY v) (Fin ax) (Fin ay) = Fin 0"
    by (simp add: angleBetween_def assms(2,3) Math_atan2_def is_neg_def)
  have d: "dist_js (midX v) (midY v) (Fin ax) (Fin ay) = Fin 0"
    by (simp add: dist_js_def assms(2,3) fmul_def fadd_def Math_sqrt_def)
  have f: "update_factor cv (Fin 0) = Fin 0"
    using W by (simp add: update_factor_def fdiv_def)
  have h: "update_hue (Fin 0) = Fin 0"
    by (simp add: update_hue_def fmul_def fl_1_1 Math_floor_def frem_def trunc_def)
  have l: "update_len (Fin 0) = Fin 0"
    by (simp add: update_len_def fmul_def)
  show ?thesis
    by (simp add: Vector_update_def Let_def a d f h l hsl_0)
qed

text \<open>
  The scenario of the specification: anchor and pointer at \<open>(100, 100)\<close>.
\<close>

theorem Vector_update_at_anchor_witness:
  "0 < width \<lparr>width = 280, height = 280\<rparr> \<and>
   (\<forall>eng. Vector_update eng \<lparr>width = 280, height = 280\<rparr> (new_Vector (Fin 100) (Fin 100)) 100 100 =
     (\<lparr>midX = Fin 100, midY = Fin 100, angle = Some (Fin 0), len = Some (Fin 0)\<rparr>,
      Vector_draw eng \<lparr>midX = Fin 100, midY = Fin 100, angle = Some (Fin 0), len = Some (Fin 0)\<rparr>
        ''hsl(0, 70%, 35%)''))"
proof -
  have "Vector_update eng \<lparr>width = 280, height = 280\<rparr> (new_Vector (Fin 100) (Fin 100)) 100 100 =
     (\<lparr>midX = Fin 100, midY = Fin 100, angle = Some (Fin 0), len = Some (Fin 0)\<rparr>,
      Vector_draw eng \<lparr>midX = Fin 100, midY = Fin 100, angle = Some (Fin 0), len = Some (Fin 0)\<rparr>
        ''hsl(0, 70%, 35%)'')" for eng
    using Vector_update_at_anchor [of "\<lparr>width = 280, height = 280\<rparr>" "new_Vector (Fin 100) (Fin 100)" 100 100 eng]
    by (simp add: new_Vector_def)
  then show ?thesis
    by simp
qed

section \<open>Properties of Vector.draw\<close>

lemma rnd_error_rel: "\<bar>rnd x - x\<bar> \<le> \<bar>x\<bar> / 2 ^ 53 + pow2 (- 1075)"
proof (cases "pow2 (- 1022) \<le> \<bar>x\<bar>")
  case True
  have "pow2 (expo x) = pow2 53 * pow2 (expo x - 53)"
    unfolding pow2_add [symmetric] by simp
  then have "pow2 (expo x - 53) = pow2 (expo x) / 2 ^ 53"
    by (simp add: pow2_numeral)
  also have "\<dots> \<le> \<bar>x\<bar> / 2 ^ 53"
    using pow2_expo_le [OF True] by (simp add: divide_right_mono)
  finally have "pow2 (expo x - 53) \<le> \<bar>x\<bar> / 2 ^ 53" .
  then show ?thesis
    using rnd_error [of x] pow2_nonneg [of "- 1075"] by linarith
next
  case False
  show ?thesis
  proof (cases "x = 0")
    case True
    then show ?thesis by simp
  next
    case nz: False
    have "\<bar>x\<bar> < pow2 (- 1022 + 1)"
      using False pow2_mono [of "- 1022" "- 1022 + 1"] by simp
    then have "expo x \<le> - 1022"
      using nz by (intro expo_le) simp_all
    then have "expo x = - 1022"
      using expo_ge [of x] by simp
    then have "pow2 (expo x - 53) = pow2 (- 1075)"
      by simp
    then show ?thesis
      using rnd_error [of x] by simp
  qed
qed

lemma fadd_Fin_D: "fadd a b = Fin c \<Longrightarrow> \<exists>x y. a = Fin x \<and> b = Fin y \<and> c = rnd (x + y)"
  by (cases a; cases b) (auto simp: fadd_def dest: fl_Fin_D)

lemma fsub_Fin_D: "fsub a b = Fin c \<Longrightarrow> \<exists>x y. a = Fin x \<and> b = Fin y \<and> c = rnd (x - y)"
  by (cases a; cases b) (auto simp: fsub_def fadd_def fneg_def dest: fl_Fin_D)

lemma fdiv_2_Fin_D: "fdiv a (Fin 2) = Fin c \<Longrightarrow> \<exists>x. a = Fin x \<and> c = rnd (x / 2)"
  by (cases a) (auto simp: fdiv_def is_neg_def dest: fl_Fin_D split: if_splits)

text \<open>
  The midpoint of \<open>x0 = m + e / 2\<close> and \<open>x1 = x0 - e\<close>, each operation rounded, misses
  \<open>m\<close> by the three rounding errors.
\<close>

lemma midpoint_error:
  assumes "fadd M (fdiv D (Fin 2)) = Fin a" and "fsub (Fin a) D = Fin b"
  shows "\<exists>m e. M = Fin m \<and> D = Fin e \<and>
           \<bar>(a + b) / 2 - m\<bar> \<le> (\<bar>m + rnd (e / 2)\<bar> + \<bar>e / 2\<bar> + \<bar>a - e\<bar> / 2) / 2 ^ 53
                                   + 5 / 2 * pow2 (- 1075)"
proof -
  obtain m h where M: "M = Fin m" and H: "fdiv D (Fin 2) = Fin h" and a: "a = rnd (m + h)"
    using fadd_Fin_D [OF assms(1)] by blast
  obtain e where D: "D = Fin e" and h: "h = rnd (e / 2)"
    using fdiv_2_Fin_D [OF H] by blast
  have b: "b = rnd (a - e)"
    using fsub_Fin_D [OF assms(2)] D by auto
  define \<epsilon> where "\<epsilon> = pow2 (- 1075)"
  have e0: "\<bar>a - (m + h)\<bar> \<le> \<bar>m + h\<bar> / 2 ^ 53 + \<epsilon>"
    unfolding a \<epsilon>_def by (rule rnd_error_rel)
  have eh: "\<bar>h - e / 2\<bar> \<le> \<bar>e / 2\<bar> / 2 ^ 53 + \<epsilon>"
    unfolding h \<epsilon>_def by (rule rnd_error_rel)
  have e1: "\<bar>b - (a - e)\<bar> \<le> \<bar>a - e\<bar> / 2 ^ 53 + \<epsilon>"
    unfolding b \<epsilon>_def by (rule rnd_error_rel)
  define A1 A2 A3 where "A1 = a - (m + h)" and "A2 = h - e / 2" and "A3 = b - (a - e)"
  have split: "(a + b) / 2 - m = A1 + A2 + A3 / 2"
    by (simp add: A1_def A2_def A3_def field_simps)
  have "\<bar>A1 + A2 + A3 / 2\<bar> \<le> \<bar>A1\<bar> + \<bar>A2\<bar> + \<bar>A3\<bar> / 2"
    by (simp add: abs_if)
  then have "\<bar>(a + b) / 2 - m\<bar> \<le> \<bar>A1\<bar> + \<bar>A2\<bar> + \<bar>A3\<bar> / 2"
    by (simp only: split)
  then have "\<bar>(a + b) / 2 - m\<bar> \<le> \<bar>a - (m + h)\<bar> + \<bar>h - e / 2\<bar> + \<bar>b - (a - e)\<bar> / 2"
    by (simp only: A1_def A2_def A3_def)
  also have "\<dots> \<le> (\<bar>m + h\<bar> / 2 ^ 53 + \<epsilon>) + (\<bar>e / 2\<bar> / 2 ^ 53 + \<epsilon>) + (\<bar>a - e\<bar> / 2 ^ 53 + \<epsilon>) / 2"
    using e0 eh e1 by (intro add_mono divide_right_mono) simp_all
  also have "\<dots> = (\<bar>m + h\<bar> + \<bar>e / 2\<bar> + \<bar>a - e\<bar> / 2) / 2 ^ 53 + 5 / 2 * \<epsilon>"
    by (simp add: add_divide_distrib)
  finally show ?thesis
    using M D unfolding h \<epsilon>_def by blast
qed



lemma update_157:
  "Vector_update eng \<lparr>width = 1000, height = 500\<rparr> (new_Vector (Fin 20) (Fin 20)) 177 20 =
     (\<lparr>midX = Fin 20, midY = Fin 20, angle = Some (Fin 0),
       len = Some (Fin (3399351641813307 / 140737488355328))\<rparr>,
      Vector_draw eng
        \<lparr>midX = Fin 20, midY = Fin 20, angle = Some (Fin 0),
         len = Some (Fin (3399351641813307 / 140737488355328))\<rparr> ''hsl(47, 70%, 35%)'')"
proof -
  have a: "angleBetween eng (Fin 20) (Fin 20) (Fin 177) (Fin 20) = Fin 0"
    by (simp add: angleBetween_def Math_atan2_def is_neg_def fsub_def fadd_def fneg_def)
  have f: "update_factor \<lparr>width = 1000, height = 500\<rparr> (Fin 157) = Fin (4351170101521033 / 36028797018963968)"
    by (simp add: update_factor_def num_of_word_numeral fl_1_3 ev_w1000 ev_f157)
  have l: "update_len (Fin (4351170101521033 / 36028797018963968)) = Fin (3399351641813307 / 140737488355328)"
    by (simp add: update_len_def ev_len157)
  have h: "update_hue (Fin (4351170101521033 / 36028797018963968)) = Fin 47"
    by (simp add: update_hue_def fl_1_1 ev_360f157 ev_p157 Math_floor_def frem_def trunc_def)
  have s: "hsl (Fin 47) = ''hsl(47, 70%, 35%)''"
    by (simp add: hsl_def number_to_string_def digits.simps digit_def)
  show ?thesis
    by (simp add: Vector_update_def Let_def new_Vector_def a dist_157 f l h s)
qed

lemma endpoints_157:
  "draw_endpoints eng
     \<lparr>midX = Fin 20, midY = Fin 20, angle = Some (Fin 0),
      len = Some (Fin (3399351641813307 / 140737488355328))\<rparr> =
   ((Fin (2257212794006607 / 70368744177664), Fin 20),
    (Fin (1115073946199907 / 140737488355328), Fin 20))"
  by (simp add: draw_endpoints_def Let_def to_number_def Math_cos_def Math_sin_def
      ev_dx157 ev_h157 ev_x0 ev_x1)
    (simp add: fmul_def fdiv_def fadd_def fsub_def fneg_def)


lemma rnd_h157: "rnd (3399351641813307 / 281474976710656) = 3399351641813307 / 281474976710656"
  using rnd_eval [of 3 "3399351641813307 / 281474976710656" 6798703283626614]
  by (simp add: pow2_1 pow2_numeral pow2_neg_numeral)

lemma pow2_tiny: "pow2 (- 1075) \<le> 1 / 2 ^ 60"
  using pow2_mono [of "- 1075" "- 60"] by (simp add: pow2_neg_numeral)


section \<open>Properties of VectorField.init\<close>

declare init_row.simps [simp del] init_rows.simps [simp del]

lemma advance_0 [simp]: "advance s 0 x = x"
  by (simp add: advance_def)

lemma advance_Suc: "advance s (Suc i) x = fadd (advance s i x) s"
  by (simp add: advance_def)

lemma advance_shift: "advance s i (fadd x s) = advance s (Suc i) x"
  unfolding advance_def using funpow_swap1 [of "\<lambda>u. fadd u s" i x] by simp

lemma real_less_iff: "real i < c \<longleftrightarrow> i < nat \<lceil>c\<rceil>"
  by (simp add: zless_nat_eq_int_zless less_ceiling_iff)

lemma init_row_done: "\<not> real i < cols \<Longrightarrow> init_row cols spaceX i x y row = (row, x)"
  by (subst init_row.simps) simp

lemma init_row_step:
  "real i < cols \<Longrightarrow>
   init_row cols spaceX i x y row = init_row cols spaceX (i + 1) (fadd x spaceX) y (row @ [new_Vector x y])"
  by (subst init_row.simps) simp

lemma map_upt_shift: "f 0 # map (\<lambda>k. f (Suc k)) [0..<m] = map f [0..<Suc m]"
  by (simp add: upt_conv_Cons map_Suc_upt [symmetric] del: upt_Suc)

lemma init_row_closed:
  "init_row cols sx i x y row =
     (row @ map (\<lambda>k. \<lparr>midX = advance sx k x, midY = y, angle = None, len = None\<rparr>) [0..<nat \<lceil>cols\<rceil> - i],
      advance sx (nat \<lceil>cols\<rceil> - i) x)"
proof (induction "nat \<lceil>cols\<rceil> - i" arbitrary: i x row)
  case 0
  then have "\<not> i < nat \<lceil>cols\<rceil>"
    by linarith
  then have "\<not> real i < cols"
    using real_less_iff [of i cols] by blast
  then show ?case
    using 0 by (simp add: init_row_done)
next
  case (Suc m)
  then have "i < nat \<lceil>cols\<rceil>" and m: "m = nat \<lceil>cols\<rceil> - (i + 1)"
    by linarith+
  then have less: "real i < cols"
    using real_less_iff [of i cols] by blast
  have n: "nat \<lceil>cols\<rceil> - i = Suc m"
    using Suc.hyps(2) by simp
  have shift: "\<lparr>midX = x, midY = y, angle = None, len = None\<rparr>
        # map (\<lambda>k. \<lparr>midX = advance sx k (fadd x sx), midY = y, angle = None, len = None\<rparr>) [0..<m]
      = map (\<lambda>k. \<lparr>midX = advance sx k x, midY = y, angle = None, len = None\<rparr>) [0..<Suc m]"
    using map_upt_shift [of "\<lambda>k. \<lparr>midX = advance sx k x, midY = y, angle = None, len = None\<rparr>" m]
    by (simp add: advance_shift)
  show ?case
    unfolding init_row_step [OF less] Suc.hyps(1) [OF m] m [symmetric] n
    using shift by (simp add: new_Vector_def advance_shift)
qed

lemma init_row_lattice:
  "fst (init_row cols sx 0 (Fin xo) y []) = lattice_row cols sx xo y"
  by (simp add: init_row_closed lattice_row_def)

lemma init_rows_done:
  "\<not> real j < snd sz \<Longrightarrow> init_rows sz offs spaceX spaceY j x y g = g"
  by (subst init_rows.simps) simp

lemma init_rows_step:
  "real j < snd sz \<Longrightarrow>
   init_rows sz offs spaceX spaceY j x y g =
     init_rows sz offs spaceX spaceY (j + 1) (Fin (fst offs)) (fadd y spaceY)
       (g @ [fst (init_row (fst sz) spaceX 0 x y [])])"
  by (subst init_rows.simps) (simp add: case_prod_beta)

lemma init_rows_closed:
  "init_rows (cols, rows) (xo, yo) sx sy j (Fin xo) y g =
     g @ map (\<lambda>m. lattice_row cols sx xo (advance sy m y)) [0..<nat \<lceil>rows\<rceil> - j]"
proof (induction "nat \<lceil>rows\<rceil> - j" arbitrary: j y g)
  case 0
  then have "\<not> j < nat \<lceil>rows\<rceil>"
    by linarith
  then have "\<not> real j < snd (cols, rows)"
    using real_less_iff [of j rows] by simp
  then show ?case
    using 0 by (simp add: init_rows_done)
next
  case (Suc m)
  let ?row = "\<lambda>y. lattice_row cols sx xo y"
  from Suc have "j < nat \<lceil>rows\<rceil>" and m: "m = nat \<lceil>rows\<rceil> - (j + 1)"
    by linarith+
  then have less: "real j < snd (cols, rows)"
    using real_less_iff [of j rows] by simp
  have n: "nat \<lceil>rows\<rceil> - j = Suc m"
    using Suc.hyps(2) by simp
  have step: "init_rows (cols, rows) (xo, yo) sx sy j (Fin xo) y g =
      init_rows (cols, rows) (xo, yo) sx sy (j + 1) (Fin xo) (fadd y sy) (g @ [?row y])"
    using init_rows_step [OF less, of "(xo, yo)" sx sy "Fin xo" y g] by (simp add: init_row_lattice)
  have shift: "?row y # map (\<lambda>k. ?row (advance sy k (fadd y sy))) [0..<m]
      = map (\<lambda>k. ?row (advance sy k y)) [0..<Suc m]"
    using map_upt_shift [of "\<lambda>k. ?row (advance sy k y)" m]
    by (simp add: advance_shift)
  show ?case
    unfolding step Suc.hyps(1) [OF m] m [symmetric] n
    using shift by simp
qed

lemma VectorField_init_lattice:
  "VectorField_init f cv =
     f\<lparr>grid := grid f @ lattice (fst (size_js f)) (snd (size_js f))
               (Math_floor (fdiv (num_of_word (width cv)) (Fin (fst (size_js f)))))
               (Math_floor (fdiv (num_of_word (height cv)) (Fin (snd (size_js f)))))
               (fst (offsets f)) (snd (offsets f))\<rparr>"
proof -
  obtain cols rows where sz: "size_js f = (cols, rows)"
    by (cases "size_js f")
  obtain xo yo where offs: "offsets f = (xo, yo)"
    by (cases "offsets f")
  show ?thesis
    by (simp add: VectorField_init_def sz offs lattice_def init_rows_closed floor_div_def)
qed

lemma init_new_VectorField:
  "VectorField_init (new_VectorField cols rows xo yo) cv =
     \<lparr>size_js = (cols, rows), offsets = (xo, yo),
      grid = lattice cols rows
               (Math_floor (fdiv (num_of_word (width cv)) (Fin cols)))
               (Math_floor (fdiv (num_of_word (height cv)) (Fin rows))) xo yo\<rparr>"
  by (simp add: VectorField_init_lattice) (simp add: new_VectorField_def)

lemma length_lattice: "length (lattice cols rows sx sy xo yo) = nat \<lceil>rows\<rceil>"
  by (simp add: lattice_def)

lemma nth_lattice:
  "j < nat \<lceil>rows\<rceil> \<Longrightarrow>
   lattice cols rows sx sy xo yo ! j = lattice_row cols sx xo (advance sy j (Fin yo))"
  by (simp add: lattice_def)

lemma length_lattice_row: "length (lattice_row cols sx xo y) = nat \<lceil>cols\<rceil>"
  by (simp add: lattice_row_def)

lemma nth_lattice_row:
  "i < nat \<lceil>cols\<rceil> \<Longrightarrow>
   lattice_row cols sx xo y ! i = \<lparr>midX = advance sx i (Fin xo), midY = y, angle = None, len = None\<rparr>"
  by (simp add: lattice_row_def)

text \<open>Repeated addition of an integer to an integer is exact below \<open>2\<^sup>5\<^sup>3\<close>.\<close>

lemma advance_exact:
  assumes "\<bar>a\<bar> + int i * \<bar>s\<bar> < 2 ^ 53"
  shows "advance (Fin (real_of_int s)) i (Fin (real_of_int a)) = Fin (real_of_int (a + int i * s))"
  using assms
proof (induction i)
  case 0
  show ?case by simp
next
  case (Suc i)
  have "\<bar>a\<bar> + int i * \<bar>s\<bar> \<le> \<bar>a\<bar> + int (Suc i) * \<bar>s\<bar>"
    by (simp add: algebra_simps)
  then have IH: "advance (Fin (real_of_int s)) i (Fin (real_of_int a)) = Fin (real_of_int (a + int i * s))"
    using Suc by simp
  have "\<bar>a + int (Suc i) * s\<bar> \<le> \<bar>a\<bar> + \<bar>int (Suc i) * s\<bar>"
    by (rule abs_triangle_ineq)
  also have "\<bar>int (Suc i) * s\<bar> = int (Suc i) * \<bar>s\<bar>"
    by (simp add: abs_mult)
  finally have "\<bar>a + int (Suc i) * s\<bar> < 2 ^ 53"
    using Suc.prems by linarith
  then have "fl (real_of_int (a + int (Suc i) * s)) = Fin (real_of_int (a + int (Suc i) * s))"
    by (rule fl_of_int)
  moreover have "real_of_int (a + int i * s) + real_of_int s = real_of_int (a + int (Suc i) * s)"
    by (simp add: algebra_simps)
  ultimately show ?case
    by (simp add: advance_Suc IH fadd_def del: of_int_add of_int_mult of_nat_Suc)
qed

lemma Math_floor_Fin_D: "Math_floor a = Fin s \<Longrightarrow> s = real_of_int \<lfloor>s\<rfloor>"
  by (cases a) (auto simp: Math_floor_def)

lemma floor_28: "Math_floor (fdiv (num_of_word 280) (Fin 10)) = Fin 28"
  by (simp add: num_of_word_def fdiv_def Math_floor_def)

lemma ev_off1:
  "fadd (Fin (5764607523034235 / 576460752303423488)) (Fin 28) = Fin (7884114097665475 / 281474976710656)"
  using fl_eval [of 4 "16146665672018891899 / 576460752303423488" 7884114097665475]
  by (simp add: fadd_def pow2_1 pow2_numeral pow2_neg_numeral)

lemma ev_off2:
  "fadd (Fin (7884114097665475 / 281474976710656)) (Fin 28) = Fin (3941353361390961 / 70368744177664)"
  using fl_eval [of 5 "15765413445563843 / 281474976710656" 7882706722781922]
  by (simp add: fadd_def pow2_1 pow2_numeral pow2_neg_numeral)

lemma ev_off56:
  "fadd (Fin (5764607523034235 / 576460752303423488)) (Fin 56) = Fin (7882706722781921 / 140737488355328)"
  using fl_eval [of 5 "32287566736514749563 / 576460752303423488" 7882706722781921]
  by (simp add: fadd_def pow2_1 pow2_numeral pow2_neg_numeral)

lemma floor_84_3: "Math_floor (fdiv (num_of_word 84) (Fin 3)) = Fin 28"
  by (simp add: num_of_word_def fdiv_def Math_floor_def)

text \<open>
  C3, as the claim states it, fails where a sum is rounded: \<open>init\<close> adds the spacing
  to \<open>x\<close> once per column. With the x-offset 0.01 (the double nearest to it), three
  columns and one row on a canvas 84 wide, the spacing is 28 and the third anchor is at
  56.010000000000005, which is neither the real \<open>xOffset + 2 * 28\<close> nor the Number
  56.01 that \<open>xOffset + 2 * 28\<close> evaluates to.
\<close>

theorem VectorField_init_rounded_sum_counterexample:
  "midX (grid (VectorField_init (new_VectorField 3 1 (5764607523034235 / 576460752303423488) 20)
            \<lparr>width = 84, height = 28\<rparr>) ! 0 ! 2) = Fin (3941353361390961 / 70368744177664) \<and>
   Math_floor (fdiv (num_of_word 84) (Fin 3)) = Fin 28 \<and>
   (3941353361390961 / 70368744177664 :: real) \<noteq> 5764607523034235 / 576460752303423488 + 2 * 28 \<and>
   Fin (3941353361390961 / 70368744177664) \<noteq>
     fadd (Fin (5764607523034235 / 576460752303423488)) (fmul (Fin 2) (Fin 28))"
proof -
  let ?X = "5764607523034235 / 576460752303423488 :: real"
  have "grid (VectorField_init (new_VectorField 3 1 ?X 20) \<lparr>width = 84, height = 28\<rparr>) ! 0 ! 2 =
      \<lparr>midX = advance (Fin 28) 2 (Fin ?X), midY = advance (Math_floor (fdiv (num_of_word 28) (Fin 1))) 0 (Fin 20),
       angle = None, len = None\<rparr>"
    by (simp add: init_new_VectorField floor_84_3 nth_lattice nth_lattice_row)
  moreover have "advance (Fin 28) 2 (Fin ?X) = Fin (3941353361390961 / 70368744177664)"
    by (simp add: advance_def numeral_2_eq_2 ev_off1 ev_off2)
  moreover have "fmul (Fin 2) (Fin 28) = Fin 56"
    by (simp add: fmul_def)
  ultimately show ?thesis
    by (simp add: floor_84_3 ev_off56)
qed


text \<open>
  C3, amended. \<open>init\<close> on a newly constructed field builds \<open>\<lceil>rows\<rceil>\<close> rows of \<open>\<lceil>cols\<rceil>\<close>
  vectors. The spacings are \<open>Math.floor(width / cols)\<close> and
  \<open>Math.floor(height / rows)\<close>, the floor of the rounded quotient. The vector
  \<open>grid[j][i]\<close> has for \<open>midX\<close> the x-offset with the horizontal spacing added \<open>i\<close>
  times, for \<open>midY\<close> the y-offset with the vertical spacing added \<open>j\<close> times, each sum
  rounded, and \<open>null\<close> for \<open>angle\<close> and \<open>len\<close>. Where the offsets are integers and
  the sums stay below \<open>2\<^sup>5\<^sup>3\<close>, as with the offsets \<open>(20, 20)\<close> of setup, no sum is
  rounded and the anchor is \<open>(xOffset + i * spaceX, yOffset + j * spaceY)\<close>. On a 280 by
  280 canvas with 10 columns, 10 rows and offsets \<open>(20, 20)\<close> the spacing is 28, the
  first anchor is \<open>(20, 20)\<close> and the last one, \<open>grid[9][9]\<close>, is \<open>(272, 272)\<close>.
\<close>

theorem VectorField_init_lattice_anchors:
  "(length (grid (VectorField_init (new_VectorField cols rows xOffset yOffset) cv)) = nat \<lceil>rows\<rceil> \<and>
    (\<forall>j < nat \<lceil>rows\<rceil>.
       length (grid (VectorField_init (new_VectorField cols rows xOffset yOffset) cv) ! j) = nat \<lceil>cols\<rceil> \<and>
       (\<forall>i < nat \<lceil>cols\<rceil>.
          grid (VectorField_init (new_VectorField cols rows xOffset yOffset) cv) ! j ! i =
            \<lparr>midX = advance (Math_floor (fdiv (num_of_word (width cv)) (Fin cols))) i (Fin xOffset),
             midY = advance (Math_floor (fdiv (num_of_word (height cv)) (Fin rows))) j (Fin yOffset),
             angle = None, len = None\<rparr> \<and>
          (\<forall>a b spaceX spaceY.
             xOffset = real_of_int a \<and> yOffset = real_of_int b \<and>
             Math_floor (fdiv (num_of_word (width cv)) (Fin cols)) = Fin spaceX \<and>
             Math_floor (fdiv (num_of_word (height cv)) (Fin rows)) = Fin spaceY \<and>
             \<bar>a\<bar> + int i * \<bar>\<lfloor>spaceX\<rfloor>\<bar> < 2 ^ 53 \<and> \<bar>b\<bar> + int j * \<bar>\<lfloor>spaceY\<rfloor>\<bar> < 2 ^ 53 \<longrightarrow>
             midX (grid (VectorField_init (new_VectorField cols rows xOffset yOffset) cv) ! j ! i) =
               Fin (xOffset + real i * spaceX) \<and>
             midY (grid (VectorField_init (new_VectorField cols rows xOffset yOffset) cv) ! j ! i) =
               Fin (yOffset + real j * spaceY))))) \<and>
   (Math_floor (fdiv (num_of_word 280) (Fin 10)) = Fin 28 \<and>
    length (grid (VectorField_init (new_VectorField 10 10 20 20) \<lparr>width = 280, height = 280\<rparr>)) = 10 \<and>
    length (grid (VectorField_init (new_VectorField 10 10 20 20) \<lparr>width = 280, height = 280\<rparr>) ! 9) = 10 \<and>
    grid (VectorField_init (new_VectorField 10 10 20 20) \<lparr>width = 280, height = 280\<rparr>) ! 0 ! 0 =
      \<lparr>midX = Fin 20, midY = Fin 20, angle = None, len = None\<rparr> \<and>
    grid (VectorField_init (new_VectorField 10 10 20 20) \<lparr>width = 280, height = 280\<rparr>) ! 9 ! 9 =
      \<lparr>midX = Fin 272, midY = Fin 272, angle = None, len = None\<rparr>)"
proof (rule conjI)
  define SX where "SX = Math_floor (fdiv (num_of_word (width cv)) (Fin cols))"
  define SY where "SY = Math_floor (fdiv (num_of_word (height cv)) (Fin rows))"
  define g where "g = lattice cols rows SX SY xOffset yOffset"
  have init: "grid (VectorField_init (new_VectorField cols rows xOffset yOffset) cv) = g"
    by (simp add: init_new_VectorField g_def SX_def SY_def)
  have cell: "g ! j ! i = \<lparr>midX = advance SX i (Fin xOffset), midY = advance SY j (Fin yOffset),
      angle = None, len = None\<rparr>" if "j < nat \<lceil>rows\<rceil>" and "i < nat \<lceil>cols\<rceil>" for i j
    using that by (simp add: g_def nth_lattice nth_lattice_row)
  have exact: "midX (g ! j ! i) = Fin (xOffset + real i * spaceX) \<and>
      midY (g ! j ! i) = Fin (yOffset + real j * spaceY)"
    if ij: "j < nat \<lceil>rows\<rceil>" "i < nat \<lceil>cols\<rceil>"
      and h: "xOffset = real_of_int a \<and> yOffset = real_of_int b \<and> SX = Fin spaceX \<and> SY = Fin spaceY \<and>
        \<bar>a\<bar> + int i * \<bar>\<lfloor>spaceX\<rfloor>\<bar> < 2 ^ 53 \<and> \<bar>b\<bar> + int j * \<bar>\<lfloor>spaceY\<rfloor>\<bar> < 2 ^ 53"
    for i j a b spaceX spaceY
  proof -
    have sx: "spaceX = real_of_int \<lfloor>spaceX\<rfloor>" and sy: "spaceY = real_of_int \<lfloor>spaceY\<rfloor>"
      using h Math_floor_Fin_D unfolding SX_def SY_def by blast+
    have "advance (Fin (real_of_int \<lfloor>spaceX\<rfloor>)) i (Fin (real_of_int a)) =
        Fin (real_of_int (a + int i * \<lfloor>spaceX\<rfloor>))"
      using h by (intro advance_exact) simp
    then have x: "advance SX i (Fin xOffset) = Fin (xOffset + real i * spaceX)"
      using h sx by simp
    have "advance (Fin (real_of_int \<lfloor>spaceY\<rfloor>)) j (Fin (real_of_int b)) =
        Fin (real_of_int (b + int j * \<lfloor>spaceY\<rfloor>))"
      using h by (intro advance_exact) simp
    then have y: "advance SY j (Fin yOffset) = Fin (yOffset + real j * spaceY)"
      using h sy by simp
    show ?thesis
      using cell [OF ij] x y by simp
  qed
  show "length (grid (VectorField_init (new_VectorField cols rows xOffset yOffset) cv)) = nat \<lceil>rows\<rceil> \<and>
    (\<forall>j < nat \<lceil>rows\<rceil>.
       length (grid (VectorField_init (new_VectorField cols rows xOffset yOffset) cv) ! j) = nat \<lceil>cols\<rceil> \<and>
       (\<forall>i < nat \<lceil>cols\<rceil>.
          grid (VectorField_init (new_VectorField cols rows xOffset yOffset) cv) ! j ! i =
            \<lparr>midX = advance (Math_floor (fdiv (num_of_word (width cv)) (Fin cols))) i (Fin xOffset),
             midY = advance (Math_floor (fdiv (num_of_word (height cv)) (Fin rows))) j (Fin yOffset),
             angle = None, len = None\<rparr> \<and>
          (\<forall>a b spaceX spaceY.
             xOffset = real_of_int a \<and> yOffset = real_of_int b \<and>
             Math_floor (fdiv (num_of_word (width cv)) (Fin cols)) = Fin spaceX \<and>
             Math_floor (fdiv (num_of_word (height cv)) (Fin rows)) = Fin spaceY \<and>
             \<bar>a\<bar> + int i * \<bar>\<lfloor>spaceX\<rfloor>\<bar> < 2 ^ 53 \<and> \<bar>b\<bar> + int j * \<bar>\<lfloor>spaceY\<rfloor>\<bar> < 2 ^ 53 \<longrightarrow>
             midX (grid (VectorField_init (new_VectorField cols rows xOffset yOffset) cv) ! j ! i) =
               Fin (xOffset + real i * spaceX) \<and>
             midY (grid (VectorField_init (new_VectorField cols rows xOffset yOffset) cv) ! j ! i) =
               Fin (yOffset + real j * spaceY))))"
    unfolding init SX_def [symmetric] SY_def [symmetric]
  proof (intro conjI allI impI)
    show "length g = nat \<lceil>rows\<rceil>"
      by (simp add: g_def length_lattice)
  next
    fix j assume "j < nat \<lceil>rows\<rceil>"
    then show "length (g ! j) = nat \<lceil>cols\<rceil>"
      by (simp add: g_def nth_lattice length_lattice_row)
  next
    fix j i assume "j < nat \<lceil>rows\<rceil>" "i < nat \<lceil>cols\<rceil>"
    then show "g ! j ! i = \<lparr>midX = advance SX i (Fin xOffset), midY = advance SY j (Fin yOffset),
        angle = None, len = None\<rparr>"
      by (rule cell)
  next
    fix j i a b spaceX spaceY
    assume "j < nat \<lceil>rows\<rceil>" "i < nat \<lceil>cols\<rceil>"
      and "xOffset = real_of_int a \<and> yOffset = real_of_int b \<and> SX = Fin spaceX \<and> SY = Fin spaceY \<and>
        \<bar>a\<bar> + int i * \<bar>\<lfloor>spaceX\<rfloor>\<bar> < 2 ^ 53 \<and> \<bar>b\<bar> + int j * \<bar>\<lfloor>spaceY\<rfloor>\<bar> < 2 ^ 53"
    then show "midX (g ! j ! i) = Fin (xOffset + real i * spaceX)"
      using exact by blast
  next
    fix j i a b spaceX spaceY
    assume "j < nat \<lceil>rows\<rceil>" "i < nat \<lceil>cols\<rceil>"
      and "xOffset = real_of_int a \<and> yOffset = real_of_int b \<and> SX = Fin spaceX \<and> SY = Fin spaceY \<and>
        \<bar>a\<bar> + int i * \<bar>\<lfloor>spaceX\<rfloor>\<bar> < 2 ^ 53 \<and> \<bar>b\<bar> + int j * \<bar>\<lfloor>spaceY\<rfloor>\<bar> < 2 ^ 53"
    then show "midY (g ! j ! i) = Fin (yOffset + real j * spaceY)"
      using exact by blast
  qed
next
  let ?g = "lattice 10 10 (Fin 28) (Fin 28) 20 20"
  have init: "grid (VectorField_init (new_VectorField 10 10 20 20) \<lparr>width = 280, height = 280\<rparr>) = ?g"
    by (simp add: init_new_VectorField floor_28)
  have a9: "advance (Fin 28) 9 (Fin 20) = Fin 272"
    using advance_exact [of 20 9 28] by simp
  have "length ?g = 10"
    by (simp add: length_lattice)
  moreover have "length (?g ! 9) = 10"
    by (simp add: nth_lattice length_lattice_row)
  moreover have "?g ! 0 ! 0 = \<lparr>midX = Fin 20, midY = Fin 20, angle = None, len = None\<rparr>"
    by (simp add: nth_lattice nth_lattice_row)
  moreover have "?g ! 9 ! 9 = \<lparr>midX = Fin 272, midY = Fin 272, angle = None, len = None\<rparr>"
    by (simp add: nth_lattice nth_lattice_row a9)
  ultimately show "Math_floor (fdiv (num_of_word 280) (Fin 10)) = Fin 28 \<and>
    length (grid (VectorField_init (new_VectorField 10 10 20 20) \<lparr>width = 280, height = 280\<rparr>)) = 10 \<and>
    length (grid (VectorField_init (new_VectorField 10 10 20 20) \<lparr>width = 280, height = 280\<rparr>) ! 9) = 10 \<and>
    grid (VectorField_init (new_VectorField 10 10 20 20) \<lparr>width = 280, height = 280\<rparr>) ! 0 ! 0 =
      \<lparr>midX = Fin 20, midY = Fin 20, angle = None, len = None\<rparr> \<and>
    grid (VectorField_init (new_VectorField 10 10 20 20) \<lparr>width = 280, height = 280\<rparr>) ! 9 ! 9 =
      \<lparr>midX = Fin 272, midY = Fin 272, angle = None, len = None\<rparr>"
    unfolding init by (simp add: floor_28)
qed

lemma rnd_1280: "rnd (1280 / 28) = 6433713753386423 / 140737488355328"
  using rnd_eval [of 5 "1280 / 28" 6433713753386423]
  by (simp add: pow2_1 pow2_numeral pow2_neg_numeral)

lemma rnd_720: "rnd (720 / 28) = 3618963986279863 / 140737488355328"
  using rnd_eval [of 4 "720 / 28" 7237927972559726]
  by (simp add: pow2_1 pow2_numeral pow2_neg_numeral)

lemma rnd_70: "rnd (70 / 28) = 5 / 2"
  using rnd_eval [of 1 "70 / 28" 5629499534213120]
  by (simp add: pow2_1 pow2_numeral pow2_neg_numeral)

lemma rnd_42: "rnd (42 / 28) = 3 / 2"
  using rnd_eval [of 0 "42 / 28" 6755399441055744]
  by (simp add: pow2_0 pow2_1 pow2_numeral pow2_neg_numeral)

lemma fdiv_1280: "fdiv (Fin 1280) (Fin (6433713753386423 / 140737488355328)) = Fin 28"
  using fl_eval [of 4 "1280 / (6433713753386423 / 140737488355328)" 7881299347898368]
  by (simp add: fdiv_def pow2_1 pow2_numeral pow2_neg_numeral)

lemma fdiv_720: "fdiv (Fin 720) (Fin (3618963986279863 / 140737488355328)) = Fin 28"
  using fl_eval [of 4 "720 / (3618963986279863 / 140737488355328)" 7881299347898368]
  by (simp add: fdiv_def pow2_1 pow2_numeral pow2_neg_numeral)

lemma fdiv_70: "fdiv (Fin 70) (Fin (5 / 2)) = Fin 28"
  by (simp add: fdiv_def)

lemma fdiv_42: "fdiv (Fin 42) (Fin (3 / 2)) = Fin 28"
  by (simp add: fdiv_def)

lemma num_of_word_sizes:
  "num_of_word 1280 = Fin 1280" "num_of_word 720 = Fin 720"
  "num_of_word 70 = Fin 70" "num_of_word 42 = Fin 42"
  by (simp_all add: num_of_word_def)

lemma setup_js_field:
  "field (setup_js w h) =
     VectorField_init (new_VectorField (rnd (real (unat w) / 28)) (rnd (real (unat h) / 28)) 20 20)
       \<lparr>width = w, height = h\<rparr>"
  by (simp add: setup_js_def Let_def)

lemma ceiling_cols_1280: "nat \<lceil>6433713753386423 / 140737488355328 :: real\<rceil> = 46"
  by (simp add: ceiling_divide_eq_div_numeral)

lemma ceiling_rows_720: "nat \<lceil>3618963986279863 / 140737488355328 :: real\<rceil> = 26"
  by (simp add: ceiling_divide_eq_div_numeral)

text \<open>
  The field that setup builds in a window of 1280 by 720 pixels. The column count is
  the double nearest to \<open>1280 / 28\<close>, which is above the quotient; \<open>1280 / cols\<close> is
  below 28 and rounds to 28, so the spacing is 28. There are 26 rows of 46 vectors, the
  second anchor of the first row is \<open>(48, 20)\<close> and the last anchor is \<open>(1280, 720)\<close>.
\<close>

theorem VectorField_init_lattice_anchors_witness:
  "length (grid (field (setup_js 1280 720))) = 26 \<and>
   length (grid (field (setup_js 1280 720)) ! 0) = 46 \<and>
   Math_floor (fdiv (num_of_word 1280) (Fin (rnd (1280 / 28)))) = Fin 28 \<and>
   grid (field (setup_js 1280 720)) ! 0 ! 1 = \<lparr>midX = Fin 48, midY = Fin 20, angle = None, len = None\<rparr> \<and>
   midX (grid (field (setup_js 1280 720)) ! 25 ! 45) = Fin 1280 \<and>
   midY (grid (field (setup_js 1280 720)) ! 25 ! 45) = Fin 720"
proof -
  let ?cols = "rnd (1280 / 28)" and ?rows = "rnd (720 / 28)"
  let ?cv = "\<lparr>width = 1280, height = 720\<rparr>"
  let ?g = "grid (VectorField_init (new_VectorField ?cols ?rows 20 20) ?cv)"
  have g: "grid (field (setup_js 1280 720)) = ?g"
    by (simp add: setup_js_field)
  have sx: "Math_floor (fdiv (num_of_word (width ?cv)) (Fin ?cols)) = Fin 28"
    unfolding rnd_1280 by (simp add: num_of_word_sizes fdiv_1280 Math_floor_def)
  have sy: "Math_floor (fdiv (num_of_word (height ?cv)) (Fin ?rows)) = Fin 28"
    unfolding rnd_720 by (simp add: num_of_word_sizes fdiv_720 Math_floor_def)
  have nc: "nat \<lceil>?cols\<rceil> = 46" and nr: "nat \<lceil>?rows\<rceil> = 26"
    by (simp_all only: rnd_1280 rnd_720 ceiling_cols_1280 ceiling_rows_720)
  note lat = VectorField_init_lattice_anchors [of ?cols ?rows 20 20 ?cv, THEN conjunct1, unfolded sx sy nc nr]
  have len: "length ?g = 26"
    using lat by blast
  have row: "length (?g ! j) = 46 \<and>
      (\<forall>i<46. ?g ! j ! i = \<lparr>midX = advance (Fin 28) i (Fin 20), midY = advance (Fin 28) j (Fin 20),
            angle = None, len = None\<rparr> \<and>
        (\<forall>a b spaceX spaceY.
            (20::real) = real_of_int a \<and> (20::real) = real_of_int b \<and>
            Fin 28 = Fin spaceX \<and> Fin 28 = Fin spaceY \<and>
            \<bar>a\<bar> + int i * \<bar>\<lfloor>spaceX\<rfloor>\<bar> < 2 ^ 53 \<and> \<bar>b\<bar> + int j * \<bar>\<lfloor>spaceY\<rfloor>\<bar> < 2 ^ 53 \<longrightarrow>
            midX (?g ! j ! i) = Fin (20 + real i * spaceX) \<and>
            midY (?g ! j ! i) = Fin (20 + real j * spaceY)))" if "j < 26" for j
    using lat that by blast
  have cell: "midX (?g ! j ! i) = Fin (20 + real i * 28) \<and> midY (?g ! j ! i) = Fin (20 + real j * 28)"
    if "j < 26" "i < 46" for i j
  proof -
    have "\<bar>20::int\<bar> + int i * \<bar>\<lfloor>28::real\<rfloor>\<bar> < 2 ^ 53" "\<bar>20::int\<bar> + int j * \<bar>\<lfloor>28::real\<rfloor>\<bar> < 2 ^ 53"
      using that by simp_all
    then show ?thesis
      using row [OF that(1), THEN conjunct2, rule_format, OF that(2), THEN conjunct2,
          rule_format, of 20 20 28 28]
      by simp
  qed
  have c01: "?g ! 0 ! 1 = \<lparr>midX = advance (Fin 28) 1 (Fin 20), midY = advance (Fin 28) 0 (Fin 20),
      angle = None, len = None\<rparr>"
    using row [of 0] by simp
  have m01: "midX (?g ! 0 ! 1) = Fin 48" "midY (?g ! 0 ! 1) = Fin 20"
    using cell [of 0 1] by simp_all
  have "?g ! 0 ! 1 = \<lparr>midX = Fin 48, midY = Fin 20, angle = None, len = None\<rparr>"
    using c01 m01 by (metis Vector.select_convs(1) Vector.select_convs(2))
  moreover have "length (?g ! 0) = 46"
    using row [of 0] by simp
  moreover have "midX (?g ! 25 ! 45) = Fin 1280" "midY (?g ! 25 ! 45) = Fin 720"
    using cell [of 25 45] by simp_all
  ultimately show ?thesis
    unfolding g using len sx by simp
qed

lemma lattice_1_1:
  "lattice 1 1 sx sy 20 20 = [[\<lparr>midX = Fin 20, midY = Fin 20, angle = None, len = None\<rparr>]]"
  by (simp add: lattice_def lattice_row_def)

text \<open>
  C4, as the claim states it, fails: \<open>init\<close> never empties the grid, it appends to it.
  With one column and one row on a 28 by 28 canvas, the grid has one row after the first
  run and two rows after the second.
\<close>

theorem VectorField_init_twice_counterexample:
  "grid (VectorField_init (new_VectorField 1 1 20 20) \<lparr>width = 28, height = 28\<rparr>) =
     [[\<lparr>midX = Fin 20, midY = Fin 20, angle = None, len = None\<rparr>]] \<and>
   grid (VectorField_init (VectorField_init (new_VectorField 1 1 20 20) \<lparr>width = 28, height = 28\<rparr>)
      \<lparr>width = 28, height = 28\<rparr>) =
     [[\<lparr>midX = Fin 20, midY = Fin 20, angle = None, len = None\<rparr>],
      [\<lparr>midX = Fin 20, midY = Fin 20, angle = None, len = None\<rparr>]] \<and>
   length (grid (VectorField_init (VectorField_init (new_VectorField 1 1 20 20) \<lparr>width = 28, height = 28\<rparr>)
      \<lparr>width = 28, height = 28\<rparr>)) \<noteq>
   length (grid (VectorField_init (new_VectorField 1 1 20 20) \<lparr>width = 28, height = 28\<rparr>)) \<and>
   grid (VectorField_init (VectorField_init (new_VectorField 1 1 20 20) \<lparr>width = 28, height = 28\<rparr>)
      \<lparr>width = 28, height = 28\<rparr>) \<noteq>
   grid (VectorField_init (new_VectorField 1 1 20 20) \<lparr>width = 28, height = 28\<rparr>)"
  by (simp add: VectorField_init_lattice new_VectorField_def lattice_1_1)

text \<open>
  C4, amended. A second run of \<open>init\<close> on the same field and canvas appends the lattice
  once more: the grid after two runs is the grid after one run followed by a copy of
  itself, so it has twice as many rows, the rows of the first run are kept, and the
  appended rows have the same lengths and anchors. The size and offsets are unchanged.
\<close>

theorem VectorField_init_twice_appends:
  "grid (VectorField_init (VectorField_init (new_VectorField cols rows xOffset yOffset) cv) cv) =
     grid (VectorField_init (new_VectorField cols rows xOffset yOffset) cv) @
     grid (VectorField_init (new_VectorField cols rows xOffset yOffset) cv) \<and>
   length (grid (VectorField_init (VectorField_init (new_VectorField cols rows xOffset yOffset) cv) cv)) =
     2 * length (grid (VectorField_init (new_VectorField cols rows xOffset yOffset) cv)) \<and>
   size_js (VectorField_init (VectorField_init (new_VectorField cols rows xOffset yOffset) cv) cv) =
     size_js (VectorField_init (new_VectorField cols rows xOffset yOffset) cv) \<and>
   offsets (VectorField_init (VectorField_init (new_VectorField cols rows xOffset yOffset) cv) cv) =
     offsets (VectorField_init (new_VectorField cols rows xOffset yOffset) cv)"
  by (simp add: VectorField_init_lattice new_VectorField_def)

text \<open>
  C9. \<open>init\<close> is deterministic: on two newly constructed fields with the same columns,
  rows and offsets, and on canvases of the same width and height, the two grids have
  the same anchors, cell by cell (the grids are equal).
\<close>

theorem VectorField_init_deterministic:
  assumes "width cv1 = width cv2" and "height cv1 = height cv2"
  shows "anchors (grid (VectorField_init (new_VectorField cols rows xOffset yOffset) cv1)) =
         anchors (grid (VectorField_init (new_VectorField cols rows xOffset yOffset) cv2)) \<and>
         grid (VectorField_init (new_VectorField cols rows xOffset yOffset) cv1) =
         grid (VectorField_init (new_VectorField cols rows xOffset yOffset) cv2)"
  using assms by (simp add: init_new_VectorField)

theorem VectorField_init_deterministic_witness:
  "width \<lparr>width = 280, height = 280\<rparr> = width \<lparr>width = 280, height = 280\<rparr> \<and>
   height \<lparr>width = 280, height = 280\<rparr> = height \<lparr>width = 280, height = 280\<rparr> \<and>
   anchors (grid (VectorField_init (new_VectorField 10 10 20 20) \<lparr>width = 280, height = 280\<rparr>)) =
   anchors (grid (VectorField_init (new_VectorField 10 10 20 20) \<lparr>width = 280, height = 280\<rparr>)) \<and>
   grid (VectorField_init (new_VectorField 10 10 20 20) \<lparr>width = 280, height = 280\<rparr>) =
   grid (VectorField_init (new_VectorField 10 10 20 20) \<lparr>width = 280, height = 280\<rparr>)"
  using VectorField_init_deterministic [of "\<lparr>width = 280, height = 280\<rparr>" "\<lparr>width = 280, height = 280\<rparr>" 10 10 20 20]
  by simp

lemma ceiling_non_integer: "x \<notin> \<int> \<Longrightarrow> \<lceil>x\<rceil> = \<lfloor>x\<rfloor> + 1" for x :: real
  using ceiling_altdef [of x] Ints_of_int [where ?'a = real]
  by (metis of_int_floor_cancel Ints_cases)

text \<open>
  C10. When the columns and rows given to the field are non-negative and not integers
  (the quotients \<open>width / 28\<close> and \<open>height / 28\<close> that setup passes without flooring),
  \<open>init\<close> builds \<open>\<lceil>rows\<rceil>\<close> rows of \<open>\<lceil>cols\<rceil>\<close> vectors each: one more than the integer
  part, since the loop runs while the counter is below the fractional bound.
\<close>

theorem VectorField_init_fractional_size:
  assumes "0 \<le> cols" and "0 \<le> rows" and "cols \<notin> \<int>" and "rows \<notin> \<int>"
  shows "int (length (grid (VectorField_init (new_VectorField cols rows xOffset yOffset) cv))) = \<lceil>rows\<rceil> \<and>
      \<lceil>rows\<rceil> = \<lfloor>rows\<rfloor> + 1 \<and>
      (\<forall>row \<in> set (grid (VectorField_init (new_VectorField cols rows xOffset yOffset) cv)).
         int (length row) = \<lceil>cols\<rceil>) \<and>
      \<lceil>cols\<rceil> = \<lfloor>cols\<rfloor> + 1"
proof -
  have "0 \<le> \<lceil>rows\<rceil>" and "0 \<le> \<lceil>cols\<rceil>"
    using assms by linarith+
  moreover have "\<lceil>rows\<rceil> = \<lfloor>rows\<rfloor> + 1" and "\<lceil>cols\<rceil> = \<lfloor>cols\<rfloor> + 1"
    using assms by (simp_all add: ceiling_non_integer)
  ultimately show ?thesis
    by (auto simp: init_new_VectorField lattice_def length_lattice_row)
qed

lemma rnd_5_2: "rnd (5 / 2) = 5 / 2"
  using rnd_eval [of 1 "5 / 2" 5629499534213120]
  by (simp add: pow2_1 pow2_numeral pow2_neg_numeral)

lemma rnd_3_2: "rnd (3 / 2) = 3 / 2"
  using rnd_eval [of 0 "3 / 2" 6755399441055744]
  by (simp add: pow2_0 pow2_1 pow2_numeral pow2_neg_numeral)

text \<open>
  In a window of 70 by 42 pixels setup passes 2.5 columns and 1.5 rows, and the grid has
  2 rows of 3 vectors.
\<close>

theorem VectorField_init_fractional_size_witness:
  "(0::real) \<le> 5 / 2 \<and> (0::real) \<le> 3 / 2 \<and> (5 / 2 :: real) \<notin> \<int> \<and> (3 / 2 :: real) \<notin> \<int> \<and>
   size_js (field (setup_js 70 42)) = (5 / 2, 3 / 2) \<and>
   length (grid (field (setup_js 70 42))) = 2 \<and>
   list_all (\<lambda>row. length row = 3) (grid (field (setup_js 70 42)))"
proof -
  let ?cv = "\<lparr>width = 70, height = 42\<rparr>"
  let ?f = "VectorField_init (new_VectorField (5 / 2) (3 / 2) 20 20) ?cv"
  have n: "(5 / 2 :: real) \<notin> \<int>" "(3 / 2 :: real) \<notin> \<int>"
    by (simp_all add: frac_eq_0_iff [symmetric] frac_def)
  have f: "field (setup_js 70 42) = ?f"
    unfolding setup_js_field by (simp add: rnd_5_2 rnd_3_2)
  have "int (length (grid ?f)) = \<lceil>3 / 2 :: real\<rceil>"
    and "\<forall>row \<in> set (grid ?f). int (length row) = \<lceil>5 / 2 :: real\<rceil>"
    using VectorField_init_fractional_size [of "5 / 2" "3 / 2" 20 20 ?cv] n by auto
  then have "length (grid ?f) = 2 \<and> list_all (\<lambda>row. length row = 3) (grid ?f)"
    by (simp add: list_all_iff)
  moreover have "size_js ?f = (5 / 2, 3 / 2)"
    by (simp add: init_new_VectorField)
  ultimately show ?thesis
    unfolding f using n by simp
qed

section \<open>Properties of update\<close>

lemma Vector_update_fst:
  "fst (Vector_update eng cv v mouseX mouseY) =
     v\<lparr>angle := Some (angleBetween eng (midX v) (midY v) (Fin mouseX) (Fin mouseY)),
       len := Some (update_len (update_factor cv (dist_js (midX v) (midY v) (Fin mouseX) (Fin mouseY))))\<rparr>"
  by (simp add: Vector_update_def Let_def)

lemma update_row_anchors:
  "map (\<lambda>v. (midX v, midY v)) (fst (update_row eng cv row mouseX mouseY)) =
   map (\<lambda>v. (midX v, midY v)) row"
proof (induction row)
  case Nil
  show ?case by simp
next
  case (Cons v row)
  obtain v' cs where v': "Vector_update eng cv v mouseX mouseY = (v', cs)"
    by (cases "Vector_update eng cv v mouseX mouseY")
  then have "fst (Vector_update eng cv v mouseX mouseY) = v'"
    by simp
  then have "midX v' = midX v" "midY v' = midY v"
    unfolding Vector_update_fst by auto
  with Cons v' show ?case
    by (auto split: prod.splits)
qed

lemma update_rows_anchors:
  "anchors (fst (update_rows eng cv g mouseX mouseY)) = anchors g"
proof (induction g)
  case Nil
  show ?case by (simp add: anchors_def)
next
  case (Cons row g)
  then show ?case
    using update_row_anchors [of eng cv row mouseX mouseY]
    by (auto simp: anchors_def split: prod.splits)
qed

lemma VectorField_update_anchors:
  "size_js (fst (VectorField_update eng f cv mouseX mouseY)) = size_js f \<and>
   offsets (fst (VectorField_update eng f cv mouseX mouseY)) = offsets f \<and>
   anchors (grid (fst (VectorField_update eng f cv mouseX mouseY))) = anchors (grid f)"
  using update_rows_anchors [of eng cv "grid f" mouseX mouseY]
  by (auto simp: VectorField_update_def split: prod.splits option.splits)

lemma mousemove_anchors:
  "canvas_of (fst (mousemove eng s ev)) = canvas_of s \<and>
   size_js (field (fst (mousemove eng s ev))) = size_js (field s) \<and>
   offsets (field (fst (mousemove eng s ev))) = offsets (field s) \<and>
   anchors (grid (field (fst (mousemove eng s ev)))) = anchors (grid (field s))"
  using VectorField_update_anchors [of eng "field s" "canvas_of s" "fst ev" "snd ev"]
  by (auto simp: mousemove_def Let_def split: prod.splits)

lemma run_anchors:
  "canvas_of (run eng s evs) = canvas_of s \<and>
   size_js (field (run eng s evs)) = size_js (field s) \<and>
   offsets (field (run eng s evs)) = offsets (field s) \<and>
   anchors (grid (field (run eng s evs))) = anchors (grid (field s))"
proof (induction evs arbitrary: s)
  case Nil
  show ?case by simp
next
  case (Cons ev evs)
  obtain s1 e where s1: "mousemove eng s ev = (s1, e)"
    by (cases "mousemove eng s ev")
  then have "fst (mousemove eng s ev) = s1"
    by simp
  then show ?case
    using mousemove_anchors [of eng s ev] Cons [of s1] s1 by simp
qed

lemma anchors_lengths:
  assumes "anchors g' = anchors g"
  shows "length g' = length g \<and> map length g' = map length g"
proof -
  have "map length (anchors g) = map length g" for g
    by (simp add: anchors_def)
  then show ?thesis
    using assms by (metis length_map)
qed

text \<open>
  The field that \<open>setup\<close> builds has a vector only on a canvas of positive width and
  height, and the coordinates of its anchors are then not \<open>NaN\<close>: they are sums of the
  offset 20 and a non-negative spacing.
\<close>

lemma nonneg_Math_floor: "nonneg a \<Longrightarrow> nonneg (Math_floor a)"
  by (cases a) (simp_all add: Math_floor_def)

lemma nonneg_advance: "nonneg s \<Longrightarrow> nonneg x \<Longrightarrow> nonneg (advance s i x)"
  by (induction i) (simp_all add: advance_Suc nonneg_fadd)

lemma rnd_quotient_pos:
  assumes "0 < n"
  shows "0 < rnd (real n / 28)"
proof -
  have "1 \<le> real n"
    using assms by simp
  then have "pow2 (- 5) \<le> real n / 28"
    by (simp add: pow2_neg_numeral)
  moreover have "pow2 (- 1022) \<le> pow2 (- 5)"
    by (intro pow2_mono) simp
  ultimately have "pow2 (expo (real n / 28)) \<le> rnd (real n / 28)"
    by (intro rnd_ge_pow2_expo) linarith
  then show ?thesis
    using pow2_pos [of "expo (real n / 28)"] by linarith
qed

lemma nonneg_spacing:
  assumes "w \<noteq> 0"
  shows "nonneg (Math_floor (fdiv (num_of_word w) (Fin (rnd (real (unat w) / 28)))))"
proof -
  have "0 < unat w"
    using assms by (simp add: unat_gt_0)
  then have "0 < rnd (real (unat w) / 28)"
    by (rule rnd_quotient_pos)
  moreover have "nonneg (num_of_word w)"
    unfolding num_of_word_def by (simp only: nonneg_simps of_nat_0_le_iff)
  ultimately show ?thesis
    by (intro nonneg_Math_floor nonneg_fdiv_pos)
qed

lemma setup_js_invariant:
  assumes "row \<in> set (grid (field (setup_js innerWidth innerHeight)))" and "v \<in> set row"
  shows "0 < innerWidth \<and> 0 < innerHeight \<and> nonneg (midX v) \<and> nonneg (midY v) \<and>
         midX v \<noteq> NaN \<and> midY v \<noteq> NaN"
proof -
  define cols where "cols = rnd (real (unat innerWidth) / 28)"
  define rows where "rows = rnd (real (unat innerHeight) / 28)"
  define SX where "SX = Math_floor (fdiv (num_of_word innerWidth) (Fin cols))"
  define SY where "SY = Math_floor (fdiv (num_of_word innerHeight) (Fin rows))"
  have g: "grid (field (setup_js innerWidth innerHeight)) = lattice cols rows SX SY 20 20"
    by (simp add: setup_js_field init_new_VectorField cols_def rows_def SX_def SY_def)
  obtain j where j: "j < nat \<lceil>rows\<rceil>" "row = lattice_row cols SX 20 (advance SY j (Fin 20))"
    using assms(1) unfolding g lattice_def by auto
  obtain i where i: "i < nat \<lceil>cols\<rceil>"
    "v = \<lparr>midX = advance SX i (Fin 20), midY = advance SY j (Fin 20), angle = None, len = None\<rparr>"
    using assms(2) unfolding j(2) lattice_row_def by auto
  have "0 < cols" "0 < rows"
    using i(1) j(1) by linarith+
  then have ne: "innerWidth \<noteq> 0" "innerHeight \<noteq> 0"
    unfolding cols_def rows_def by auto
  have SX: "nonneg SX"
    unfolding SX_def cols_def using ne(1) by (rule nonneg_spacing)
  have SY: "nonneg SY"
    unfolding SY_def rows_def using ne(2) by (rule nonneg_spacing)
  have "0 < innerWidth" "0 < innerHeight"
    using ne by (simp_all add: word_neq_0_conv)
  moreover have "nonneg (midX v)" "nonneg (midY v)"
    unfolding i(2) using SX SY by (simp_all add: nonneg_advance)
  moreover have "a \<noteq> NaN" if "nonneg a" for a
    using that by auto
  ultimately show ?thesis
    by blast
qed

text \<open>
  C5. After initialisation nothing changes the grid's dimensions or a vector's anchor.
  \<open>Vector.update\<close> returns the vector with only \<open>angle\<close> and \<open>len\<close> rewritten, and
  \<open>VectorField.update\<close> returns a field with the same size, offsets, number of rows,
  row lengths and anchors, whether or not \<open>drawGrid\<close> throws. For the program as a whole,
  whatever the window's size and whatever the sequence of mousemove events, the field
  after the events has the size, offsets, number of rows, row lengths and anchors that
  setup gave it, on the same canvas.
\<close>

theorem update_keeps_grid_and_anchors:
  "(midX (fst (Vector_update eng cv v mouseX mouseY)) = midX v \<and>
    midY (fst (Vector_update eng cv v mouseX mouseY)) = midY v \<and>
    fst (Vector_update eng cv v mouseX mouseY) =
      v\<lparr>angle := angle (fst (Vector_update eng cv v mouseX mouseY)),
        len := len (fst (Vector_update eng cv v mouseX mouseY))\<rparr>) \<and>
   (size_js (fst (VectorField_update eng f cv mouseX mouseY)) = size_js f \<and>
    offsets (fst (VectorField_update eng f cv mouseX mouseY)) = offsets f \<and>
    length (grid (fst (VectorField_update eng f cv mouseX mouseY))) = length (grid f) \<and>
    map length (grid (fst (VectorField_update eng f cv mouseX mouseY))) = map length (grid f) \<and>
    anchors (grid (fst (VectorField_update eng f cv mouseX mouseY))) = anchors (grid f)) \<and>
   (canvas_of (run eng (setup_js innerWidth innerHeight) evs) = canvas_of (setup_js innerWidth innerHeight) \<and>
    size_js (field (run eng (setup_js innerWidth innerHeight) evs)) =
      size_js (field (setup_js innerWidth innerHeight)) \<and>
    offsets (field (run eng (setup_js innerWidth innerHeight) evs)) =
      offsets (field (setup_js innerWidth innerHeight)) \<and>
    length (grid (field (run eng (setup_js innerWidth innerHeight) evs))) =
      length (grid (field (setup_js innerWidth innerHeight))) \<and>
    map length (grid (field (run eng (setup_js innerWidth innerHeight) evs))) =
      map length (grid (field (setup_js innerWidth innerHeight))) \<and>
    anchors (grid (field (run eng (setup_js innerWidth innerHeight) evs))) =
      anchors (grid (field (setup_js innerWidth innerHeight))))"
proof (intro conjI)
  show "midX (fst (Vector_update eng cv v mouseX mouseY)) = midX v"
    and "midY (fst (Vector_update eng cv v mouseX mouseY)) = midY v"
    and "fst (Vector_update eng cv v mouseX mouseY) =
      v\<lparr>angle := angle (fst (Vector_update eng cv v mouseX mouseY)),
        len := len (fst (Vector_update eng cv v mouseX mouseY))\<rparr>"
    by (simp_all add: Vector_update_fst)
  note fu = VectorField_update_anchors [of eng f cv mouseX mouseY]
  show "size_js (fst (VectorField_update eng f cv mouseX mouseY)) = size_js f"
    and "offsets (fst (VectorField_update eng f cv mouseX mouseY)) = offsets f"
    and "anchors (grid (fst (VectorField_update eng f cv mouseX mouseY))) = anchors (grid f)"
    using fu by blast+
  then show "length (grid (fst (VectorField_update eng f cv mouseX mouseY))) = length (grid f)"
    and "map length (grid (fst (VectorField_update eng f cv mouseX mouseY))) = map length (grid f)"
    using anchors_lengths by blast+
  note ru = run_anchors [of eng "setup_js innerWidth innerHeight" evs]
  show "canvas_of (run eng (setup_js innerWidth innerHeight) evs) = canvas_of (setup_js innerWidth innerHeight)"
    and "size_js (field (run eng (setup_js innerWidth innerHeight) evs)) =
      size_js (field (setup_js innerWidth innerHeight))"
    and "offsets (field (run eng (setup_js innerWidth innerHeight) evs)) =
      offsets (field (setup_js innerWidth innerHeight))"
    and "anchors (grid (field (run eng (setup_js innerWidth innerHeight) evs))) =
      anchors (grid (field (setup_js innerWidth innerHeight)))"
    using ru by blast+
  then show "length (grid (field (run eng (setup_js innerWidth innerHeight) evs))) =
      length (grid (field (setup_js innerWidth innerHeight)))"
    and "map length (grid (field (run eng (setup_js innerWidth innerHeight) evs))) =
      map length (grid (field (setup_js innerWidth innerHeight)))"
    using anchors_lengths by blast+
qed

lemma rnd_1: "rnd 1 = 1"
  using rnd_of_int [of 1] by simp

theorem update_keeps_grid_and_anchors_witness:
  "\<forall>eng. midX (fst (Vector_update eng \<lparr>width = 28, height = 28\<rparr> (new_Vector (Fin 20) (Fin 20)) 100 20)) = Fin 20 \<and>
     midY (fst (Vector_update eng \<lparr>width = 28, height = 28\<rparr> (new_Vector (Fin 20) (Fin 20)) 100 20)) = Fin 20 \<and>
     size_js (field (run eng (setup_js 28 28) [(100, 20), (3, 4)])) = (1, 1) \<and>
     offsets (field (run eng (setup_js 28 28) [(100, 20), (3, 4)])) = (20, 20) \<and>
     anchors (grid (field (run eng (setup_js 28 28) [(100, 20), (3, 4)]))) = [[(Fin 20, Fin 20)]]"
proof
  fix eng
  have s0: "size_js (field (setup_js 28 28)) = (1, 1) \<and> offsets (field (setup_js 28 28)) = (20, 20) \<and>
      anchors (grid (field (setup_js 28 28))) = [[(Fin 20, Fin 20)]]"
    by (simp add: setup_js_field init_new_VectorField rnd_1 lattice_1_1 anchors_def)
  show "midX (fst (Vector_update eng \<lparr>width = 28, height = 28\<rparr> (new_Vector (Fin 20) (Fin 20)) 100 20)) = Fin 20 \<and>
     midY (fst (Vector_update eng \<lparr>width = 28, height = 28\<rparr> (new_Vector (Fin 20) (Fin 20)) 100 20)) = Fin 20 \<and>
     size_js (field (run eng (setup_js 28 28) [(100, 20), (3, 4)])) = (1, 1) \<and>
     offsets (field (run eng (setup_js 28 28) [(100, 20), (3, 4)])) = (20, 20) \<and>
     anchors (grid (field (run eng (setup_js 28 28) [(100, 20), (3, 4)]))) = [[(Fin 20, Fin 20)]]"
    using update_keeps_grid_and_anchors [of eng "\<lparr>width = 28, height = 28\<rparr>" "new_Vector (Fin 20) (Fin 20)" 100 20
        "new_VectorField 1 1 20 20" 28 28 "[(100, 20), (3, 4)]"] s0
    by (simp add: new_Vector_def)
qed


section \<open>Properties of VectorField.drawGrid\<close>

lemma lattice_5_2:
  "lattice (5 / 2) (3 / 2) (Fin 28) (Fin 28) 20 20 =
     [[\<lparr>midX = Fin 20, midY = Fin 20, angle = None, len = None\<rparr>,
       \<lparr>midX = Fin 48, midY = Fin 20, angle = None, len = None\<rparr>,
       \<lparr>midX = Fin 76, midY = Fin 20, angle = None, len = None\<rparr>],
      [\<lparr>midX = Fin 20, midY = Fin 48, angle = None, len = None\<rparr>,
       \<lparr>midX = Fin 48, midY = Fin 48, angle = None, len = None\<rparr>,
       \<lparr>midX = Fin 76, midY = Fin 48, angle = None, len = None\<rparr>]]"
proof -
  have c: "nat \<lceil>5 / 2 :: real\<rceil> = 3" "nat \<lceil>3 / 2 :: real\<rceil> = 2"
    by (simp_all add: ceiling_divide_eq_div_numeral)
  have u: "[0..<3] = [0, 1, 2]" "[0..<2] = [0, 1]"
    by (simp_all add: upt_rec)
  have a1: "advance (Fin 28) (Suc 0) (Fin 20) = Fin 48"
    using advance_exact [of 20 1 28] by simp
  have a2: "advance (Fin 28) 2 (Fin 20) = Fin 76"
    using advance_exact [of 20 2 28] by simp
  show ?thesis
    unfolding lattice_def lattice_row_def c u by (simp add: a1 a2)
qed

text \<open>
  C8. The code does not do what the claim says in a window whose width or height is not
  a multiple of 28. In a window of 70 by 42 pixels setup stores the quotients 2.5 and
  1.5 in \<open>size\<close>, which the class documents as the number of rows and columns; the grid
  has 2 rows of 3 vectors, and \<open>drawGrid\<close> emits 2 horizontal and 3 vertical segments,
  which are not \<open>rows\<close> and \<open>cols\<close> many; the third vertical segment, at \<open>x = 76\<close>, is
  outside the canvas.
\<close>

theorem drawGrid_fractional_size:
  "size_js (field (setup_js 70 42)) = (5 / 2, 3 / 2) \<and>
   canvas_of (setup_js 70 42) = \<lparr>width = 70, height = 42\<rparr> \<and>
   anchors (grid (field (setup_js 70 42))) =
     [[(Fin 20, Fin 20), (Fin 48, Fin 20), (Fin 76, Fin 20)],
      [(Fin 20, Fin 48), (Fin 48, Fin 48), (Fin 76, Fin 48)]] \<and>
   VectorField_drawGrid (field (setup_js 70 42)) (canvas_of (setup_js 70 42)) =
     ([LineWidth 1, StrokeStyle ''#ccc'', BeginPath,
       MoveTo (Fin 0) (Fin 20), LineTo (Fin 70) (Fin 20),
       MoveTo (Fin 0) (Fin 48), LineTo (Fin 70) (Fin 48),
       MoveTo (Fin 20) (Fin 0), LineTo (Fin 20) (Fin 42),
       MoveTo (Fin 48) (Fin 0), LineTo (Fin 48) (Fin 42),
       MoveTo (Fin 76) (Fin 0), LineTo (Fin 76) (Fin 42),
       Stroke], None) \<and>
   segments (fst (VectorField_drawGrid (field (setup_js 70 42)) (canvas_of (setup_js 70 42)))) =
     [((0, 20), (70, 20)), ((0, 48), (70, 48))] @
     [((20, 0), (20, 42)), ((48, 0), (48, 42)), ((76, 0), (76, 42))] \<and>
   real (length [((0, 20), (70, 20)), ((0, 48), (70, 48 :: real))]) \<noteq> snd (size_js (field (setup_js 70 42))) \<and>
   real (length [((20, 0), (20, 42)), ((48, 0), (48, 42)), ((76, 0), (76, 42 :: real))]) \<noteq>
     fst (size_js (field (setup_js 70 42)))"
proof -
  let ?cv = "\<lparr>width = 70, height = 42\<rparr>"
  let ?g = "[[\<lparr>midX = Fin 20, midY = Fin 20, angle = None, len = None\<rparr>,
       \<lparr>midX = Fin 48, midY = Fin 20, angle = None, len = None\<rparr>,
       \<lparr>midX = Fin 76, midY = Fin 20, angle = None, len = None\<rparr>],
      [\<lparr>midX = Fin 20, midY = Fin 48, angle = None, len = None\<rparr>,
       \<lparr>midX = Fin 48, midY = Fin 48, angle = None, len = None\<rparr>,
       \<lparr>midX = Fin 76, midY = Fin 48, angle = None, len = None\<rparr>]]"
  have f: "field (setup_js 70 42) = \<lparr>size_js = (5 / 2, 3 / 2), offsets = (20, 20), grid = ?g\<rparr>"
    unfolding setup_js_field
    by (simp add: rnd_5_2 rnd_3_2 init_new_VectorField num_of_word_sizes fdiv_70 fdiv_42
        Math_floor_def lattice_5_2)
  have c: "canvas_of (setup_js 70 42) = ?cv"
    by (simp add: setup_js_def Let_def)
  have draw: "VectorField_drawGrid \<lparr>size_js = (5 / 2, 3 / 2), offsets = (20, 20), grid = ?g\<rparr> ?cv =
      ([LineWidth 1, StrokeStyle ''#ccc'', BeginPath,
       MoveTo (Fin 0) (Fin 20), LineTo (Fin 70) (Fin 20),
       MoveTo (Fin 0) (Fin 48), LineTo (Fin 70) (Fin 48),
       MoveTo (Fin 20) (Fin 0), LineTo (Fin 20) (Fin 42),
       MoveTo (Fin 48) (Fin 0), LineTo (Fin 48) (Fin 42),
       MoveTo (Fin 76) (Fin 0), LineTo (Fin 76) (Fin 42),
       Stroke], None)"
    by (simp add: VectorField_drawGrid_def num_of_word_sizes)
  show ?thesis
    unfolding f c draw by (simp add: segments_def anchors_def)
qed

section \<open>The program in other windows\<close>

text \<open>
  In a window 56 pixels wide and 130 high the row count is the double nearest to
  \<open>130 / 28\<close>, the quotient \<open>130 / rows\<close> rounds to a double below 28, and the rows are
  27 pixels apart.
\<close>

lemma rnd_130: "rnd (65 / 14) = 5227392424626469 / 1125899906842624"
  using rnd_eval [of 2 "65 / 14" 5227392424626469]
  by (simp add: pow2_1 pow2_numeral pow2_neg_numeral)

lemma fdiv_130:
  "fdiv (Fin 130) (Fin (5227392424626469 / 1125899906842624)) = Fin (7881299347898367 / 281474976710656)"
  using fl_eval [of 4 "130 / (5227392424626469 / 1125899906842624)" 7881299347898367]
  by (simp add: fdiv_def pow2_1 pow2_numeral pow2_neg_numeral)

lemma setup_js_56_130:
  "length (grid (field (setup_js 56 130))) = 5 \<and>
   midX (grid (field (setup_js 56 130)) ! 1 ! 1) = Fin 48 \<and>
   midY (grid (field (setup_js 56 130)) ! 1 ! 1) = Fin 47"
proof -
  have r: "rnd 2 = 2"
    using rnd_of_int [of 2] by simp
  have c: "nat \<lceil>5227392424626469 / 1125899906842624 :: real\<rceil> = 5"
    by (simp add: ceiling_divide_eq_div_numeral)
  have sy: "Math_floor (Fin (7881299347898367 / 281474976710656)) = Fin 27"
    by (simp add: Math_floor_def floor_divide_eq_div_numeral)
  have a: "advance (Fin 28) (Suc 0) (Fin 20) = Fin 48" "advance (Fin 27) (Suc 0) (Fin 20) = Fin 47"
    using advance_exact [of 20 1 28] advance_exact [of 20 1 27] by simp_all
  have "grid (field (setup_js 56 130)) =
      lattice 2 (5227392424626469 / 1125899906842624) (Fin 28) (Fin 27) 20 20"
    by (simp add: setup_js_field init_new_VectorField r rnd_130 num_of_word_def fdiv_130 sy)
      (simp add: fdiv_def Math_floor_def)
  then show ?thesis
    by (simp add: length_lattice nth_lattice nth_lattice_row c a)
qed

text \<open>
  Every vector that the listener updates, after \<open>setup\<close> and any sequence of events, is
  on a canvas of positive width and has an anchor whose coordinates are not \<open>NaN\<close>.
\<close>

lemma anchors_member:
  assumes "anchors g' = anchors g" and "row' \<in> set g'" and "v' \<in> set row'"
  shows "\<exists>row \<in> set g. \<exists>v \<in> set row. midX v = midX v' \<and> midY v = midY v'"
proof -
  have "map (\<lambda>v. (midX v, midY v)) row' \<in> set (anchors g)"
    using assms(1,2) unfolding anchors_def by (metis (no_types, lifting) image_eqI list.set_map)
  then obtain row where row: "row \<in> set g"
    "map (\<lambda>v. (midX v, midY v)) row = map (\<lambda>v. (midX v, midY v)) row'"
    unfolding anchors_def by auto
  have "(midX v', midY v') \<in> set (map (\<lambda>v. (midX v, midY v)) row)"
    unfolding row(2) using assms(3) by auto
  then obtain v where "v \<in> set row" "midX v = midX v'" "midY v = midY v'"
    by auto
  with row(1) show ?thesis
    by blast
qed

lemma run_setup_js_invariant:
  assumes "row \<in> set (grid (field (run eng (setup_js innerWidth innerHeight) evs)))" and "v \<in> set row"
  shows "0 < width (canvas_of (run eng (setup_js innerWidth innerHeight) evs)) \<and>
         midX v \<noteq> NaN \<and> midY v \<noteq> NaN"
proof -
  note ru = run_anchors [of eng "setup_js innerWidth innerHeight" evs]
  obtain row0 v0 where "row0 \<in> set (grid (field (setup_js innerWidth innerHeight)))" "v0 \<in> set row0"
    "midX v0 = midX v" "midY v0 = midY v"
    using anchors_member [OF _ assms] ru by blast
  then have "0 < innerWidth \<and> midX v \<noteq> NaN \<and> midY v \<noteq> NaN"
    using setup_js_invariant [of row0 innerWidth innerHeight v0] by auto
  moreover have "width (canvas_of (run eng (setup_js innerWidth innerHeight) evs)) = innerWidth"
    using ru by (simp add: setup_js_def Let_def)
  ultimately show ?thesis
    by simp
qed

end
